theory Spec2Isabelle
  imports Main
begin

section \<open>Strings of the JavaScript runtime\<close>

text \<open>
  The program is \<^verbatim>\<open>server/seo-service.ts\<close>, class \<^verbatim>\<open>SEOService\<close>. A JavaScript string is a
  sequence of UTF-16 code units: \<^verbatim>\<open>length\<close>, \<^verbatim>\<open>substring\<close>, \<^verbatim>\<open>split\<close> and the regular
  expressions of the file (none has the \<^verbatim>\<open>u\<close> flag) all count and match code units. A
  code unit is modelled as a natural number (the values below 65536 are the real ones), a
  string as a list of them. \<open>js\<close> turns an ASCII literal into such a string.
\<close>

type_synonym jschar = nat
type_synonym jsstring = "jschar list"

definition js :: "string \<Rightarrow> jsstring" where
  "js s = map of_char s"

text \<open>The character classes \<^verbatim>\<open>\d\<close>, \<^verbatim>\<open>\w\<close> and \<^verbatim>\<open>\s\<close> of a regular expression without the
  \<^verbatim>\<open>u\<close> flag. \<^verbatim>\<open>\s\<close> is WhiteSpace and LineTerminator of ECMAScript: TAB, LF, VT, FF, CR,
  SP, NBSP, U+1680, U+2000 to U+200A, U+2028, U+2029, U+202F, U+205F, U+3000 and U+FEFF.
  \<^verbatim>\<open>String.prototype.trim\<close> removes exactly the same code units.\<close>

definition isDigit :: "jschar \<Rightarrow> bool" where
  "isDigit c = (48 \<le> c \<and> c \<le> 57)"

definition isWordChar :: "jschar \<Rightarrow> bool" where
  "isWordChar c = ((48 \<le> c \<and> c \<le> 57) \<or> (65 \<le> c \<and> c \<le> 90) \<or> c = 95 \<or> (97 \<le> c \<and> c \<le> 122))"

definition isSpace :: "jschar \<Rightarrow> bool" where
  "isSpace c = ((9 \<le> c \<and> c \<le> 13) \<or> c = 32 \<or> c = 160 \<or> c = 5760 \<or> (8192 \<le> c \<and> c \<le> 8202)
     \<or> c = 8232 \<or> c = 8233 \<or> c = 8239 \<or> c = 8287 \<or> c = 12288 \<or> c = 65279)"

text \<open>\<^verbatim>\<open>s.trim()\<close>.\<close>

definition trim :: "jsstring \<Rightarrow> jsstring" where
  "trim s = rev (dropWhile isSpace (rev (dropWhile isSpace s)))"

text \<open>\<^verbatim>\<open>s.startsWith(t)\<close> and \<^verbatim>\<open>s.includes(t)\<close>.\<close>

fun startsWith :: "jsstring \<Rightarrow> jsstring \<Rightarrow> bool" where
  "startsWith s [] = True"
| "startsWith [] (d # t) = False"
| "startsWith (c # s) (d # t) = (c = d \<and> startsWith s t)"

fun includesStr :: "jsstring \<Rightarrow> jsstring \<Rightarrow> bool" where
  "includesStr [] t = (t = [])"
| "includesStr (c # s) t = (startsWith (c # s) t \<or> includesStr s t)"

text \<open>\<^verbatim>\<open>a || b\<close> on a nullable string column: \<^verbatim>\<open>null\<close> and the empty string are falsy.\<close>

fun orElse :: "jsstring option \<Rightarrow> jsstring \<Rightarrow> jsstring" where
  "orElse None d = d"
| "orElse (Some s) d = (if s = [] then d else s)"

fun truthy :: "jsstring option \<Rightarrow> bool" where
  "truthy None = False"
| "truthy (Some s) = (s \<noteq> [])"

section \<open>The posting\<close>

text \<open>
  \<^verbatim>\<open>Job\<close> is the row type of the table \<^verbatim>\<open>jobs\<close> of the schema: \<^verbatim>\<open>title\<close> and
  \<^verbatim>\<open>description\<close> are \<^verbatim>\<open>notNull\<close> text columns, the other text columns are nullable
  (\<^verbatim>\<open>string | null\<close>). The columns the service never reads (ids, status, score,
  timestamps) are left out.
\<close>

record Job =
  title :: jsstring
  description :: jsstring
  company :: "jsstring option"
  location :: "jsstring option"
  jobType :: "jsstring option"
  category :: "jsstring option"
  salary :: "jsstring option"
  focusKeyphrase :: "jsstring option"
  metaDescription :: "jsstring option"

section \<open>generateMetaDescription\<close>

text \<open>The string assembled from the template, before the cap (the local variable
  \<^verbatim>\<open>description\<close> at line 111).\<close>

definition assembleMetaDescription :: "Job \<Rightarrow> jsstring" where
  "assembleMetaDescription job =
     (let company' = orElse (company job) (js ''Leading company'');
          location' = orElse (location job) (js ''South Africa'');
          jobType' = orElse (jobType job) (js ''position'');
          d = js ''Join '' @ company' @ js '' as a '' @ title job @ js '' in '' @ location' @ js ''. '';
          d = (if truthy (salary job)
               then d @ js ''Competitive salary '' @ orElse (salary job) [] @ js ''. ''
               else d)
      in d @ js ''Apply now for this exciting '' @ jobType' @ js '' opportunity.'')"

definition generateMetaDescription :: "Job \<Rightarrow> jsstring" where
  "generateMetaDescription job =
     (let d = assembleMetaDescription job
      in if length d > 160 then take 157 d @ js ''...'' else d)"

section \<open>Case mapping\<close>

text \<open>
  \<^verbatim>\<open>toLowerCase\<close>, unit by unit. On ASCII it is exact. Outside ASCII the Unicode table is
  not reproduced: the service looks at lower-cased text only through \<^verbatim>\<open>\w\<close>, \<^verbatim>\<open>\s\<close> and
  comparison with ASCII literals, and every other code unit is replaced, removed or
  skipped, so all that matters of the image of a non-ASCII unit is which ASCII units it
  holds. Two units have such an image: U+0130 gives \<^verbatim>\<open>i\<close> followed by U+0307, and U+212A
  (the Kelvin sign) gives \<^verbatim>\<open>k\<close>. Any other non-ASCII unit is mapped to units that are
  again outside ASCII and, like itself, inside or outside \<^verbatim>\<open>\s\<close>; the unit stands for them.
\<close>

definition lowerUnit :: "jschar \<Rightarrow> jsstring" where
  "lowerUnit c =
     (if 65 \<le> c \<and> c \<le> 90 then [c + 32]
      else if c = 304 then [105, 775]
      else if c = 8490 then [107]
      else [c])"

definition toLowerCase :: "jsstring \<Rightarrow> jsstring" where
  "toLowerCase s = concat (map lowerUnit s)"

text \<open>\<^verbatim>\<open>letter.toUpperCase()\<close> is only called on a unit that \<^verbatim>\<open>\w\<close> matched.\<close>

definition upperWordChar :: "jschar \<Rightarrow> jschar" where
  "upperWordChar c = (if 97 \<le> c \<and> c \<le> 122 then c - 32 else c)"

section \<open>optimizeTitle\<close>

text \<open>The class \<^verbatim>\<open>[!@#$%^&*()_+={}[\]|\\:";'<>?,.\/~`]\<close> of line 124, in the order it is
  written. The hyphen (45) is not in it.\<close>

definition titlePunct :: "jschar \<Rightarrow> bool" where
  "titlePunct c = (c \<in> set [33, 64, 35, 36, 37, 94, 38, 42, 40, 41, 95, 43, 61, 123, 125, 91, 93,
     124, 92, 58, 34, 59, 39, 60, 62, 63, 44, 46, 47, 126, 96])"

definition replacePunct :: "jsstring \<Rightarrow> jsstring" where
  "replacePunct s = map (\<lambda>c. if titlePunct c then 32 else c) s"

text \<open>\<^verbatim>\<open>.replace(/\s+/g, ' ')\<close>: every maximal run of white space becomes one space. The flag
  says that the previous unit was white space (its run has been replaced already).\<close>

fun collapseGo :: "bool \<Rightarrow> jsstring \<Rightarrow> jsstring" where
  "collapseGo inRun [] = []"
| "collapseGo inRun (c # cs) =
     (if isSpace c then (if inRun then collapseGo True cs else 32 # collapseGo True cs)
      else c # collapseGo False cs)"

definition collapseWs :: "jsstring \<Rightarrow> jsstring" where
  "collapseWs s = collapseGo False s"

text \<open>\<^verbatim>\<open>.replace(/\b\w/g, letter => letter.toUpperCase())\<close>: a word character is matched
  when no word character stands before it. The flag says that the previous unit was a
  word character.\<close>

fun capGo :: "bool \<Rightarrow> jsstring \<Rightarrow> jsstring" where
  "capGo prevWord [] = []"
| "capGo prevWord (c # cs) =
     (if isWordChar c \<and> \<not> prevWord then upperWordChar c else c) # capGo (isWordChar c) cs"

definition capitalizeWords :: "jsstring \<Rightarrow> jsstring" where
  "capitalizeWords s = capGo False s"

text \<open>The test of lines 132 to 135, negated: the lower-cased title has one of the markers.\<close>

definition hasLocalityMarker :: "jsstring \<Rightarrow> bool" where
  "hasLocalityMarker s =
     (let l = toLowerCase s
      in includesStr l (js ''remote'') \<or> includesStr l (js ''south africa'')
         \<or> includesStr l (js ''cape town'') \<or> includesStr l (js ''johannesburg''))"

text \<open>The value of \<^verbatim>\<open>optimized\<close> at line 129, before the suffix is considered.\<close>

definition titleCore :: "jsstring \<Rightarrow> jsstring" where
  "titleCore t = capitalizeWords (trim (collapseWs (replacePunct t)))"

definition optimizeTitle :: "jsstring \<Rightarrow> jsstring" where
  "optimizeTitle t =
     (let optimized = titleCore t
      in if \<not> hasLocalityMarker optimized then optimized @ js '' - South Africa'' else optimized)"

section \<open>extractKeywords and calculateRelevance\<close>

definition industryKeywords :: "jsstring list" where
  "industryKeywords = map js
     [''healthcare'', ''software'', ''engineer'', ''manager'', ''analyst'', ''remote'', ''full time'',
      ''part time'', ''senior'', ''junior'', ''assistant'', ''director'', ''coordinator'',
      ''south africa'', ''cape town'', ''johannesburg'', ''durban'', ''pretoria'',
      ''nursing'', ''pharmacy'', ''medical'', ''hospital'', ''clinic'',
      ''developer'', ''programmer'', ''technical'', ''IT'', ''technology'',
      ''marketing'', ''sales'', ''customer service'', ''administration'',
      ''finance'', ''accounting'', ''banking'', ''insurance'',
      ''education'', ''teaching'', ''training'', ''academic'',
      ''construction'', ''engineering'', ''maintenance'', ''operations'']"

definition stopWords :: "jsstring list" where
  "stopWords = map js
     [''the'', ''a'', ''an'', ''and'', ''or'', ''but'', ''in'', ''on'', ''at'', ''to'', ''for'', ''of'', ''with'',
      ''by'', ''is'', ''are'', ''was'', ''were'', ''be'', ''been'', ''being'', ''have'', ''has'', ''had'',
      ''do'', ''does'', ''did'', ''will'', ''would'', ''should'', ''could'', ''can'', ''may'', ''might'',
      ''this'', ''that'', ''these'', ''those'', ''i'', ''you'', ''he'', ''she'', ''it'', ''we'', ''they'']"

text \<open>\<^verbatim>\<open>calculateRelevance\<close> returns 2.0 or 1.0; the weight is kept as the number 2 or 1.\<close>

definition calculateRelevance :: "jsstring \<Rightarrow> nat" where
  "calculateRelevance t =
     (if list_ex (\<lambda>keyword. includesStr keyword t \<or> includesStr t keyword) industryKeywords
      then 2 else 1)"

text \<open>\<^verbatim>\<open>s.split(/\s+/)\<close>: the pieces between the maximal runs of white space; a run at the
  start or at the end of the string leaves an empty piece there. The flag says that the
  previous unit was white space.\<close>

fun splitWsGo :: "bool \<Rightarrow> jsstring \<Rightarrow> jsstring list" where
  "splitWsGo inRun [] = [[]]"
| "splitWsGo inRun (c # cs) =
     (if isSpace c then (if inRun then splitWsGo True cs else [] # splitWsGo True cs)
      else (case splitWsGo False cs of [] \<Rightarrow> [[c]] | p # ps \<Rightarrow> (c # p) # ps))"

definition splitWs :: "jsstring \<Rightarrow> jsstring list" where
  "splitWs s = splitWsGo False s"

text \<open>The words of line 60 to 63.\<close>

definition keywordTokens :: "jsstring \<Rightarrow> jsstring list" where
  "keywordTokens content =
     filter (\<lambda>word. length word > 2 \<and> word \<notin> set stopWords)
       (splitWs (map (\<lambda>c. if \<not> isWordChar c \<and> \<not> isSpace c then 32 else c) content))"

text \<open>
  The object \<^verbatim>\<open>frequency\<close> starts as \<^verbatim>\<open>{}\<close>, so it inherits from \<^verbatim>\<open>Object.prototype\<close>.
  Its own properties are kept as an association list in creation order.
  \<^verbatim>\<open>frequency[word] = (frequency[word] || 0) + 1\<close> counts an ordinary word. A word of
  word characters can also be the name of a property of \<^verbatim>\<open>Object.prototype\<close>:
  \<^item> one of its eleven functions (\<open>inheritedFunctions\<close>): the first read gives the
    function, which is truthy, and adding 1 gives a string (the source text of the
    function followed by 1); the own property then holds a string that grows by the
    character 1 at each further occurrence. Such a value is \<open>NonNumeric\<close>: it converts to
    NaN in every arithmetic operation and comparison. On a lower-cased corpus, as
    \<^verbatim>\<open>analyzeJob\<close> passes it, \<^verbatim>\<open>constructor\<close> is the only such word.
  \<^item> \<^verbatim>\<open>__proto__\<close>, an accessor: the read gives \<^verbatim>\<open>Object.prototype\<close>, and the write is a
    call of the inherited setter with a string, which does nothing; no own property
    appears.
\<close>

definition inheritedFunctions :: "jsstring list" where
  "inheritedFunctions = map js
     [''constructor'', ''__defineGetter__'', ''__defineSetter__'', ''hasOwnProperty'',
      ''__lookupGetter__'', ''__lookupSetter__'', ''isPrototypeOf'', ''propertyIsEnumerable'',
      ''toString'', ''valueOf'', ''toLocaleString'']"

datatype freq = Num nat | NonNumeric

fun increment :: "freq \<Rightarrow> freq" where
  "increment (Num n) = Num (n + 1)"
| "increment NonNumeric = NonNumeric"

definition bump :: "(jsstring \<times> freq) list \<Rightarrow> jsstring \<Rightarrow> (jsstring \<times> freq) list" where
  "bump frequency word =
     (if word = js ''__proto__'' then frequency
      else (case map_of frequency word of
              None \<Rightarrow>
                frequency @ [(word, if word \<in> set inheritedFunctions then NonNumeric else Num 1)]
            | Some v \<Rightarrow> map (\<lambda>(k, v). if k = word then (k, increment v) else (k, v)) frequency))"

definition countWords :: "jsstring list \<Rightarrow> (jsstring \<times> freq) list" where
  "countWords words = foldl bump [] words"

text \<open>
  \<^verbatim>\<open>Object.entries\<close> lists the own properties in the order of OrdinaryOwnPropertyKeys:
  first the keys that are array indices (the canonical decimal numerals of the integers
  from 0 to 2^32 - 2), in ascending numeric order, then the other keys in creation order.
\<close>

definition decimalValue :: "jsstring \<Rightarrow> nat" where
  "decimalValue s = foldl (\<lambda>a c. 10 * a + (c - 48)) 0 s"

definition isArrayIndex :: "jsstring \<Rightarrow> bool" where
  "isArrayIndex s = (s \<noteq> [] \<and> list_all isDigit s \<and> (s = [48] \<or> hd s \<noteq> 48)
     \<and> decimalValue s \<le> 4294967294)"

definition objectEntries :: "(jsstring \<times> freq) list \<Rightarrow> (jsstring \<times> freq) list" where
  "objectEntries obj =
     sort_key (\<lambda>e. decimalValue (fst e)) (filter (\<lambda>e. isArrayIndex (fst e)) obj)
     @ filter (\<lambda>e. \<not> isArrayIndex (fst e)) obj"

record KeywordData =
  termOf :: jsstring
  frequency :: freq
  relevance :: nat

text \<open>\<^verbatim>\<open>k.frequency * k.relevance\<close>; \<open>None\<close> is NaN.\<close>

definition rankKey :: "KeywordData \<Rightarrow> nat option" where
  "rankKey k = (case frequency k of Num n \<Rightarrow> Some (n * relevance k) | NonNumeric \<Rightarrow> None)"

text \<open>The comparator of line 76. A NaN result counts as +0 (SortCompare of ECMAScript).\<close>

definition compareFn :: "KeywordData \<Rightarrow> KeywordData \<Rightarrow> int" where
  "compareFn a b =
     (case (rankKey b, rankKey a) of
        (Some kb, Some ka) \<Rightarrow> int kb - int ka
      | _ \<Rightarrow> 0)"

text \<open>
  \<^verbatim>\<open>Array.prototype.sort\<close> is a stable sort. When every key is a number the comparator
  is consistent and the result is the one stable arrangement in descending order of the
  key, which insertion from the right computes.

  When a key is NaN the comparator is not consistent, and ECMAScript leaves the
  resulting order to the implementation. The sort of the runtime on such a list is not
  part of the repository; it is a parameter, \<open>sorter\<close>, about which nothing is assumed.
\<close>

type_synonym runtime_sort = "KeywordData list \<Rightarrow> KeywordData list"

fun insertSorted :: "KeywordData \<Rightarrow> KeywordData list \<Rightarrow> KeywordData list" where
  "insertSorted a [] = [a]"
| "insertSorted a (b # bs) = (if compareFn a b \<le> 0 then a # b # bs else b # insertSorted a bs)"

definition insertionSort :: "KeywordData list \<Rightarrow> KeywordData list" where
  "insertionSort ks = foldr insertSorted ks []"

definition sortKeywords :: "runtime_sort \<Rightarrow> KeywordData list \<Rightarrow> KeywordData list" where
  "sortKeywords sorter ks =
     (if list_all (\<lambda>k. rankKey k \<noteq> None) ks then insertionSort ks else sorter ks)"

definition rankedKeywords :: "runtime_sort \<Rightarrow> jsstring list \<Rightarrow> KeywordData list" where
  "rankedKeywords sorter words =
     sortKeywords sorter
       (map (\<lambda>(t, f). \<lparr>termOf = t, frequency = f, relevance = calculateRelevance t\<rparr>)
          (objectEntries (countWords words)))"

definition extractKeywords :: "runtime_sort \<Rightarrow> jsstring \<Rightarrow> KeywordData list" where
  "extractKeywords sorter content = take 20 (rankedKeywords sorter (keywordTokens content))"

section \<open>generateFocusKeyphrase\<close>

text \<open>\<^verbatim>\<open>xs.join(sep)\<close>.\<close>

fun joinWith :: "jsstring \<Rightarrow> jsstring list \<Rightarrow> jsstring" where
  "joinWith sep [] = []"
| "joinWith sep [x] = x"
| "joinWith sep (x # y # ys) = x @ sep @ joinWith sep (y # ys)"

text \<open>\<^verbatim>\<open>job.location?.toLowerCase().replace(/[^\w\s]/g, '').trim()\<close>; \<open>None\<close> is
  \<^verbatim>\<open>undefined\<close>.\<close>

definition cleanLocation :: "Job \<Rightarrow> jsstring option" where
  "cleanLocation job =
     map_option (\<lambda>l. trim (filter (\<lambda>c. isWordChar c \<or> isSpace c) (toLowerCase l))) (location job)"

definition generateFocusKeyphrase :: "KeywordData list \<Rightarrow> Job \<Rightarrow> jsstring" where
  "generateFocusKeyphrase keywords job =
     (let topKeywords = map termOf (take 3 keywords);
          topKeywords =
            (case cleanLocation job of
               None \<Rightarrow> topKeywords
             | Some location' \<Rightarrow>
                 if location' \<noteq> [] \<and> location' \<notin> set topKeywords
                 then topKeywords @ [location'] else topKeywords)
      in joinWith [32] (take 3 topKeywords))"

section \<open>calculateSEOScore and generateRecommendations\<close>

text \<open>\<^verbatim>\<open>topKeyword.frequency >= 2 && topKeyword.frequency <= 5\<close> and
  \<^verbatim>\<open>topKeyword.frequency < 2\<close>; a comparison with NaN is false.\<close>

fun freqBetween :: "nat \<Rightarrow> nat \<Rightarrow> freq \<Rightarrow> bool" where
  "freqBetween lo hi (Num n) = (lo \<le> n \<and> n \<le> hi)"
| "freqBetween lo hi NonNumeric = False"

fun freqBelow :: "nat \<Rightarrow> freq \<Rightarrow> bool" where
  "freqBelow b (Num n) = (n < b)"
| "freqBelow b NonNumeric = False"

text \<open>The nine conditions of lines 146 to 187, in the order of the code.\<close>

definition titleBonus :: "Job \<Rightarrow> bool" where
  "titleBonus job = (title job \<noteq> [] \<and> length (title job) \<ge> 10 \<and> length (title job) \<le> 60)"

definition descriptionBonus :: "Job \<Rightarrow> bool" where
  "descriptionBonus job =
     (description job \<noteq> [] \<and> length (description job) \<ge> 150 \<and> length (description job) \<le> 2000)"

definition keywordBonus :: "KeywordData list \<Rightarrow> bool" where
  "keywordBonus keywords =
     (case keywords of [] \<Rightarrow> False | topKeyword # _ \<Rightarrow> freqBetween 2 5 (frequency topKeyword))"

text \<open>\<^verbatim>\<open>job.company && job.company.length > 0\<close>.\<close>

fun present :: "jsstring option \<Rightarrow> bool" where
  "present None = False"
| "present (Some s) = (s \<noteq> [] \<and> length s > 0)"

text \<open>The value of \<^verbatim>\<open>score\<close> at line 189, before it is clamped.\<close>

definition scoreBeforeClamp :: "Job \<Rightarrow> KeywordData list \<Rightarrow> int" where
  "scoreBeforeClamp job keywords =
     (let score = 50;
          score = (if titleBonus job then score + 10 else score);
          score = (if descriptionBonus job then score + 10 else score);
          score = (if keywordBonus keywords then score + 10 else score);
          score = (if present (company job) then score + 5 else score);
          score = (if present (location job) then score + 5 else score);
          score = (if present (jobType job) then score + 5 else score);
          score = (if present (category job) then score + 5 else score);
          score = (if truthy (focusKeyphrase job) then score + 10 else score);
          score = (if truthy (metaDescription job) then score + 10 else score)
      in score)"

text \<open>The third argument, the focus phrase, is not used by the function.\<close>

definition calculateSEOScore :: "Job \<Rightarrow> KeywordData list \<Rightarrow> jsstring \<Rightarrow> int" where
  "calculateSEOScore job keywords focusKeyphrase' = min 100 (max 0 (scoreBeforeClamp job keywords))"

definition generateRecommendations :: "Job \<Rightarrow> int \<Rightarrow> KeywordData list \<Rightarrow> jsstring list" where
  "generateRecommendations job score keywords =
     (if title job = [] \<or> length (title job) < 10
      then [js ''Improve job title - should be 10-60 characters long''] else [])
     @ (if description job = [] \<or> length (description job) < 150
        then [js ''Add more detailed job description (minimum 150 characters)''] else [])
     @ (if \<not> truthy (company job) then [js ''Add company name for better credibility''] else [])
     @ (if \<not> truthy (location job) then [js ''Specify job location for better local SEO''] else [])
     @ (if \<not> truthy (focusKeyphrase job)
        then [js ''Add focus keyphrase for better search ranking''] else [])
     @ (if \<not> truthy (metaDescription job)
        then [js ''Create compelling meta description to improve click-through rate''] else [])
     @ (case keywords of
          [] \<Rightarrow> []
        | topKeyword # _ \<Rightarrow>
            if freqBelow 2 (frequency topKeyword)
            then [js ''Include '' @ [34] @ termOf topKeyword @ [34]
                  @ js '' more frequently in the description'']
            else [])
     @ (if score < 70
        then [js ''Overall SEO optimization needed - consider professional review''] else [])"

section \<open>analyzeJob\<close>

record SEOAnalysis =
  score :: int
  recommendations :: "jsstring list"
  analysisFocusKeyphrase :: jsstring
  analysisMetaDescription :: jsstring
  optimizedTitle :: jsstring

text \<open>The corpus of line 40. \<^verbatim>\<open>title\<close> and \<^verbatim>\<open>description\<close> are lower-cased at lines 38 and
  39, and the whole template string once more.\<close>

definition analysisContent :: "Job \<Rightarrow> jsstring" where
  "analysisContent job =
     toLowerCase (toLowerCase (title job) @ [32] @ toLowerCase (description job) @ [32]
       @ orElse (company job) [] @ [32] @ orElse (location job) [])"

definition analyzeJob :: "runtime_sort \<Rightarrow> Job \<Rightarrow> SEOAnalysis" where
  "analyzeJob sorter job =
     (let keywords = extractKeywords sorter (analysisContent job);
          focusKeyphrase' = generateFocusKeyphrase keywords job;
          metaDescription' = generateMetaDescription job;
          optimizedTitle' = optimizeTitle (title job);
          score' = calculateSEOScore job keywords focusKeyphrase';
          recommendations' = generateRecommendations job score' keywords
      in \<lparr>score = score', recommendations = recommendations',
          analysisFocusKeyphrase = focusKeyphrase', analysisMetaDescription = metaDescription',
          optimizedTitle = optimizedTitle'\<rparr>)"

section \<open>extractListItems and extractSection\<close>

text \<open>\<^verbatim>\<open>s.split(/[-\<bullet>\<cdot>]/)\<close> for a class of single units: the pieces between the delimiters,
  empty pieces included; a string without delimiter is one piece. The class of line 394
  holds the hyphen (45), U+2022 (8226) and U+00B7 (183).\<close>

fun splitOn :: "(jschar \<Rightarrow> bool) \<Rightarrow> jsstring \<Rightarrow> jsstring list" where
  "splitOn d [] = [[]]"
| "splitOn d (c # cs) =
     (if d c then [] # splitOn d cs
      else (case splitOn d cs of [] \<Rightarrow> [[c]] | p # ps \<Rightarrow> (c # p) # ps))"

definition isBullet :: "jschar \<Rightarrow> bool" where
  "isBullet c = (c = 45 \<or> c = 8226 \<or> c = 183)"

definition extractListItems :: "jsstring \<Rightarrow> jsstring list" where
  "extractListItems section' =
     (let items = filter (\<lambda>item. length item > 10 \<and> length item < 150)
                    (map trim (splitOn isBullet section'))
      in take 8 items)"

text \<open>
  A unit of the text against a unit of a pattern under the flag \<^verbatim>\<open>i\<close> (without \<^verbatim>\<open>u\<close>):
  both are mapped by \<^verbatim>\<open>toUpperCase\<close>, except that a non-ASCII unit is never mapped into
  ASCII. The patterns matched this way are lower-case ASCII letters and spaces, so a
  pattern letter matches itself and its capital, and a space matches a space.
\<close>

definition eqIgnoreCase :: "jschar \<Rightarrow> jschar \<Rightarrow> bool" where
  "eqIgnoreCase c p = (c = p \<or> (97 \<le> p \<and> p \<le> 122 \<and> c = p - 32))"

fun startsWithCI :: "jsstring \<Rightarrow> jsstring \<Rightarrow> bool" where
  "startsWithCI s [] = True"
| "startsWithCI [] (p # ps) = False"
| "startsWithCI (c # s) (p # ps) = (eqIgnoreCase c p \<and> startsWithCI s ps)"

text \<open>
  \<^verbatim>\<open>content.match(new RegExp(`\\b${keyword}[\\s\\S]{0,500}`, 'gi'))\<close>, first match. Every
  keyword starts with a letter, so \<^verbatim>\<open>\b\<close> holds where no word character stands before;
  the greedy \<^verbatim>\<open>[\s\S]{0,500}\<close> takes the next 500 units, or all that are left. The flag
  says that the previous unit was a word character.
\<close>

fun firstWindow :: "bool \<Rightarrow> jsstring \<Rightarrow> jsstring \<Rightarrow> jsstring option" where
  "firstWindow prevWord keyword [] = None"
| "firstWindow prevWord keyword (c # cs) =
     (if \<not> prevWord \<and> startsWithCI (c # cs) keyword
      then Some (take (length keyword + 500) (c # cs))
      else firstWindow (isWordChar c) keyword cs)"

fun extractSection :: "jsstring \<Rightarrow> jsstring list \<Rightarrow> jsstring" where
  "extractSection content [] = []"
| "extractSection content (keyword # keywords) =
     (case firstWindow False keyword content of
        Some m \<Rightarrow> m
      | None \<Rightarrow> extractSection content keywords)"

text \<open>\<^verbatim>\<open>content.replace(section, '')\<close> with a string pattern: the first occurrence goes.\<close>

fun removeFirst :: "jsstring \<Rightarrow> jsstring \<Rightarrow> jsstring" where
  "removeFirst pat [] = []"
| "removeFirst pat (c # cs) =
     (if startsWith (c # cs) pat then drop (length pat) (c # cs) else c # removeFirst pat cs)"

section \<open>The contact pattern\<close>

text \<open>
  \<^verbatim>\<open>/(?:contact|call|phone|email)[\s\S]*?(?:\d{3}[\s-]?\d{3}[\s-]?\d{4}|\d{10}|[\w.-]+@[\w.-]+)/gi\<close>.
  Each function gives the number of units its part of the pattern matches at the head of
  the string, or \<open>None\<close>. In \<^verbatim>\<open>\d{3}[\s-]?\d{3}[\s-]?\d{4}\<close> a separator is taken when it
  is there (without it the next part would have to match the separator as a digit); in
  \<^verbatim>\<open>[\w.-]+@[\w.-]+\<close> both runs are maximal (a shorter first run is not followed by @).
\<close>

definition digitsAt :: "nat \<Rightarrow> jsstring \<Rightarrow> bool" where
  "digitsAt n s = (n \<le> length s \<and> list_all isDigit (take n s))"

definition sepLen :: "jsstring \<Rightarrow> nat" where
  "sepLen s = (case s of [] \<Rightarrow> 0 | c # _ \<Rightarrow> if isSpace c \<or> c = 45 then 1 else 0)"

definition phoneLen :: "jsstring \<Rightarrow> nat option" where
  "phoneLen s =
     (if digitsAt 3 s then
        (let k1 = sepLen (drop 3 s); r = drop (3 + k1) s in
         if digitsAt 3 r then
           (let k2 = sepLen (drop 3 r) in
            if digitsAt 4 (drop (3 + k2) r) then Some (3 + k1 + 3 + k2 + 4) else None)
         else None)
      else None)"

definition tenDigitsLen :: "jsstring \<Rightarrow> nat option" where
  "tenDigitsLen s = (if digitsAt 10 s then Some 10 else None)"

definition isMailChar :: "jschar \<Rightarrow> bool" where
  "isMailChar c = (isWordChar c \<or> c = 46 \<or> c = 45)"

definition emailLen :: "jsstring \<Rightarrow> nat option" where
  "emailLen s =
     (let a = takeWhile isMailChar s; r = dropWhile isMailChar s in
      if a \<noteq> [] \<and> r \<noteq> [] \<and> hd r = 64 \<and> takeWhile isMailChar (tl r) \<noteq> []
      then Some (length a + 1 + length (takeWhile isMailChar (tl r))) else None)"

definition contactTailLen :: "jsstring \<Rightarrow> nat option" where
  "contactTailLen s =
     (case phoneLen s of
        Some n \<Rightarrow> Some n
      | None \<Rightarrow> (case tenDigitsLen s of Some n \<Rightarrow> Some n | None \<Rightarrow> emailLen s))"

text \<open>The lazy \<^verbatim>\<open>[\s\S]*?\<close> followed by the tail: the tail is tried after 0, 1, 2, ... units.\<close>

fun lazyTailLen :: "jsstring \<Rightarrow> nat option" where
  "lazyTailLen [] = contactTailLen []"
| "lazyTailLen (c # cs) =
     (case contactTailLen (c # cs) of
        Some n \<Rightarrow> Some n
      | None \<Rightarrow> map_option Suc (lazyTailLen cs))"

definition contactWords :: "jsstring list" where
  "contactWords = map js [''contact'', ''call'', ''phone'', ''email'']"

text \<open>The whole pattern at the head of the string; the alternatives in their order.\<close>

fun contactLenAt :: "jsstring list \<Rightarrow> jsstring \<Rightarrow> nat option" where
  "contactLenAt [] s = None"
| "contactLenAt (w # ws) s =
     (if startsWithCI s w
      then (case lazyTailLen (drop (length w) s) of
              Some n \<Rightarrow> Some (length w + n)
            | None \<Rightarrow> contactLenAt ws s)
      else contactLenAt ws s)"

text \<open>\<^verbatim>\<open>content.match(/.../gi)\<close>: all matches from left to right, the search going on after
  the end of each. \<open>skip\<close> counts the units of the last match still to pass. The empty
  list is the \<^verbatim>\<open>null\<close> of JavaScript.\<close>

fun contactMatchesGo :: "nat \<Rightarrow> jsstring \<Rightarrow> jsstring list" where
  "contactMatchesGo skip [] = []"
| "contactMatchesGo skip (c # cs) =
     (if skip > 0 then contactMatchesGo (skip - 1) cs
      else (case contactLenAt contactWords (c # cs) of
              Some n \<Rightarrow> take n (c # cs) # contactMatchesGo (n - 1) cs
            | None \<Rightarrow> contactMatchesGo 0 cs))"

definition contactMatches :: "jsstring \<Rightarrow> jsstring list" where
  "contactMatches content = contactMatchesGo 0 content"

section \<open>A regular expression built from the matched text\<close>

text \<open>
  Line 340 builds \<^verbatim>\<open>new RegExp(contactMatches.join('|'), 'gi')\<close> from text of the posting
  and removes its matches. The constructor throws \<^verbatim>\<open>SyntaxError\<close> on a malformed
  pattern; nothing catches it inside the service.

  The matcher of the runtime for an arbitrary pattern is not part of the repository. It
  is a parameter: \<open>engine pattern s\<close> is the outcome of
  \<^verbatim>\<open>s.replace(new RegExp(pattern, 'gi'), '')\<close>. One part of the pattern grammar is written
  out, because every engine agrees on it: outside a character class an unescaped \<^verbatim>\<open>(\<close>
  opens a group that \<^verbatim>\<open>)\<close> must close, an unescaped \<^verbatim>\<open>)\<close> must close a group, a class
  opened by \<^verbatim>\<open>[\<close> must be closed by \<^verbatim>\<open>]\<close>, and the pattern must not end in a lone
  backslash. \<open>wellBracketed\<close> scans the pattern for that; a pattern that fails it is a
  SyntaxError, one that passes it is handed to the engine (which may still reject it).
\<close>

datatype error = SyntaxError

type_synonym regexp_engine = "jsstring \<Rightarrow> jsstring \<Rightarrow> error + jsstring"

fun scanGroups :: "nat \<Rightarrow> bool \<Rightarrow> bool \<Rightarrow> jsstring \<Rightarrow> bool" where
  "scanGroups depth inClass escaped [] = (depth = 0 \<and> \<not> inClass \<and> \<not> escaped)"
| "scanGroups depth inClass escaped (c # cs) =
     (if escaped then scanGroups depth inClass False cs
      else if c = 92 then scanGroups depth inClass True cs
      else if inClass then scanGroups depth (c \<noteq> 93) False cs
      else if c = 91 then scanGroups depth True False cs
      else if c = 40 then scanGroups (Suc depth) False False cs
      else if c = 41 then (0 < depth \<and> scanGroups (depth - 1) False False cs)
      else scanGroups depth False False cs)"

definition wellBracketed :: "jsstring \<Rightarrow> bool" where
  "wellBracketed pattern = scanGroups 0 False False pattern"

definition regExpRemoveAll :: "regexp_engine \<Rightarrow> jsstring \<Rightarrow> jsstring \<Rightarrow> error + jsstring" where
  "regExpRemoveAll engine pattern s =
     (if \<not> wellBracketed pattern then Inl SyntaxError else engine pattern s)"

section \<open>identifyContentSections and restructureContent\<close>

record Sections =
  overview :: jsstring
  responsibilities :: "jsstring list"
  requirements :: "jsstring list"
  skills :: "jsstring list"
  companyInfo :: jsstring
  applicationInfo :: jsstring
  contactInfo :: jsstring

definition responsibilityKeywords :: "jsstring list" where
  "responsibilityKeywords =
     map js [''responsibilities'', ''duties'', ''tasks'', ''role'', ''position'', ''areas include'']"

definition requirementKeywords :: "jsstring list" where
  "requirementKeywords =
     map js [''requirements'', ''qualifications'', ''experience'', ''education'', ''minimum'', ''must have'']"

definition skillKeywords :: "jsstring list" where
  "skillKeywords =
     map js [''skills'', ''competencies'', ''abilities'', ''technical'', ''software'', ''computer'']"

definition companyKeywords :: "jsstring list" where
  "companyKeywords = map js [''company'', ''organization'', ''group'', ''about us'', ''our'', ''we are'']"

text \<open>Lines 343 to 378, on the text left after the contact step. \<^verbatim>\<open>applicationInfo\<close> is
  never assigned and stays empty.\<close>

definition sectionsAfterContact :: "jsstring \<Rightarrow> jsstring \<Rightarrow> Sections" where
  "sectionsAfterContact contactInfo' content =
     (let responsibilitySection = extractSection content responsibilityKeywords;
          responsibilities' =
            (if responsibilitySection \<noteq> [] then extractListItems responsibilitySection else []);
          content =
            (if responsibilitySection \<noteq> [] then removeFirst responsibilitySection content else content);
          requirementSection = extractSection content requirementKeywords;
          requirements' =
            (if requirementSection \<noteq> [] then extractListItems requirementSection else []);
          content =
            (if requirementSection \<noteq> [] then removeFirst requirementSection content else content);
          skillSection = extractSection content skillKeywords;
          skills' = (if skillSection \<noteq> [] then extractListItems skillSection else []);
          content = (if skillSection \<noteq> [] then removeFirst skillSection content else content);
          companySection = extractSection content companyKeywords;
          companyInfo' = (if companySection \<noteq> [] then take 300 companySection else []);
          content = (if companySection \<noteq> [] then removeFirst companySection content else content)
      in \<lparr>overview = take 200 (trim content), responsibilities = responsibilities',
          requirements = requirements', skills = skills', companyInfo = companyInfo',
          applicationInfo = [], contactInfo = contactInfo'\<rparr>)"

definition identifyContentSections :: "regexp_engine \<Rightarrow> jsstring \<Rightarrow> error + Sections" where
  "identifyContentSections engine content =
     (let ms = contactMatches content in
      if ms \<noteq> [] then
        (case regExpRemoveAll engine (joinWith [124] ms) content of
           Inl e \<Rightarrow> Inl e
         | Inr content' \<Rightarrow> Inr (sectionsAfterContact (trim (joinWith [32] ms)) content'))
      else Inr (sectionsAfterContact [] content))"

text \<open>\<^verbatim>\<open>.replace(/&#8211;/g, '-')\<close> and \<^verbatim>\<open>.replace(/&#038;/g, '&')\<close>: every occurrence of a
  literal, from left to right. \<open>skip\<close> counts the units of the last occurrence still to
  pass.\<close>

fun replaceAllGo :: "jsstring \<Rightarrow> jsstring \<Rightarrow> nat \<Rightarrow> jsstring \<Rightarrow> jsstring" where
  "replaceAllGo pat rep skip [] = []"
| "replaceAllGo pat rep skip (c # cs) =
     (if skip > 0 then replaceAllGo pat rep (skip - 1) cs
      else if startsWith (c # cs) pat then rep @ replaceAllGo pat rep (length pat - 1) cs
      else c # replaceAllGo pat rep 0 cs)"

definition replaceAll :: "jsstring \<Rightarrow> jsstring \<Rightarrow> jsstring \<Rightarrow> jsstring" where
  "replaceAll pat rep s = replaceAllGo pat rep 0 s"

text \<open>The value of \<^verbatim>\<open>content\<close> at line 260.\<close>

definition normalizeBody :: "jsstring \<Rightarrow> jsstring" where
  "normalizeBody d = trim (collapseWs (replaceAll (js ''&#038;'') [38] (replaceAll (js ''&#8211;'') [45] d)))"

definition headingHtml :: "string \<Rightarrow> jsstring" where
  "headingHtml h = js ''<h2>'' @ js h @ js ''</h2>'' @ [10]"

definition paragraphHtml :: "jsstring \<Rightarrow> jsstring" where
  "paragraphHtml p = js ''<p>'' @ p @ js ''</p>'' @ [10]"

definition bulletList :: "jsstring list \<Rightarrow> jsstring" where
  "bulletList items =
     js ''<ul>'' @ [10] @ concat (map (\<lambda>i. js ''<li>'' @ i @ js ''</li>'' @ [10]) items)
     @ js ''</ul>'' @ [10, 10]"

text \<open>The value of \<^verbatim>\<open>structuredContent\<close> at line 314.\<close>

definition renderSections :: "Sections \<Rightarrow> jsstring" where
  "renderSections sections =
     (if overview sections \<noteq> []
      then headingHtml ''Job Overview'' @ paragraphHtml (overview sections) @ [10] else [])
     @ (if length (responsibilities sections) > 0
        then headingHtml ''Key Responsibilities'' @ bulletList (responsibilities sections) else [])
     @ (if length (requirements sections) > 0
        then headingHtml ''Requirements'' @ bulletList (requirements sections) else [])
     @ (if length (skills sections) > 0
        then headingHtml ''Required Skills'' @ bulletList (skills sections) else [])
     @ (if companyInfo sections \<noteq> []
        then headingHtml ''About the Company'' @ paragraphHtml (companyInfo sections) @ [10] else [])
     @ (if applicationInfo sections \<noteq> []
        then headingHtml ''How to Apply'' @ paragraphHtml (applicationInfo sections) @ [10] else [])
     @ (if contactInfo sections \<noteq> []
        then headingHtml ''Contact Information'' @ paragraphHtml (contactInfo sections) else [])"

definition restructureContent :: "regexp_engine \<Rightarrow> Job \<Rightarrow> error + jsstring" where
  "restructureContent engine job =
     (let content = normalizeBody (description job) in
      case identifyContentSections engine content of
        Inl e \<Rightarrow> Inl e
      | Inr sections \<Rightarrow>
          (let structuredContent = renderSections sections
           in Inr (if structuredContent \<noteq> [] then structuredContent else content)))"

section \<open>optimizeJobSEO\<close>

record Optimization =
  resultFocusKeyphrase :: jsstring
  resultMetaDescription :: jsstring
  resultOptimizedTitle :: jsstring
  optimizedContent :: jsstring
  resultRecommendations :: "jsstring list"
  seoScore :: int

definition optimizeJobSEO :: "runtime_sort \<Rightarrow> regexp_engine \<Rightarrow> Job \<Rightarrow> error + Optimization" where
  "optimizeJobSEO sorter engine job =
     (let analysis = analyzeJob sorter job in
      case restructureContent engine job of
        Inl e \<Rightarrow> Inl e
      | Inr optimizedContent' \<Rightarrow>
          Inr \<lparr>resultFocusKeyphrase = analysisFocusKeyphrase analysis,
               resultMetaDescription = analysisMetaDescription analysis,
               resultOptimizedTitle =
                 (if optimizedTitle analysis \<noteq> [] then optimizedTitle analysis else title job),
               optimizedContent = optimizedContent',
               resultRecommendations = recommendations analysis,
               seoScore = score analysis\<rparr>)"

section \<open>The scoring table, as the specification words it\<close>

text \<open>A field is filled when it is neither \<^verbatim>\<open>null\<close> nor the empty string.\<close>

definition filled :: "jsstring option \<Rightarrow> bool" where
  "filled v = (v \<noteq> None \<and> v \<noteq> Some [])"

definition bonus :: "bool \<Rightarrow> int \<Rightarrow> int" where
  "bonus applies points = (if applies then points else 0)"

text \<open>The top keyword candidate exists and its frequency is a number between the bounds.\<close>

definition topFrequencyIn :: "nat \<Rightarrow> nat \<Rightarrow> KeywordData list \<Rightarrow> bool" where
  "topFrequencyIn lo hi kws = (\<exists>k ks n. kws = k # ks \<and> frequency k = Num n \<and> lo \<le> n \<and> n \<le> hi)"

text \<open>Base 50 and the nine bonuses of the table, each on its own.\<close>

definition bonusSum :: "Job \<Rightarrow> KeywordData list \<Rightarrow> int" where
  "bonusSum job kws =
     50
     + bonus (10 \<le> length (title job) \<and> length (title job) \<le> 60) 10
     + bonus (150 \<le> length (description job) \<and> length (description job) \<le> 2000) 10
     + bonus (topFrequencyIn 2 5 kws) 10
     + bonus (filled (company job)) 5
     + bonus (filled (location job)) 5
     + bonus (filled (jobType job)) 5
     + bonus (filled (category job)) 5
     + bonus (filled (focusKeyphrase job)) 10
     + bonus (filled (metaDescription job)) 10"

text \<open>All nine conditions at once.\<close>

definition allNineApply :: "Job \<Rightarrow> KeywordData list \<Rightarrow> bool" where
  "allNineApply job kws =
     ((10 \<le> length (title job) \<and> length (title job) \<le> 60)
      \<and> (150 \<le> length (description job) \<and> length (description job) \<le> 2000)
      \<and> topFrequencyIn 2 5 kws
      \<and> filled (company job) \<and> filled (location job) \<and> filled (jobType job)
      \<and> filled (category job) \<and> filled (focusKeyphrase job) \<and> filled (metaDescription job))"

section \<open>Sample postings\<close>

text \<open>A posting that meets all nine conditions of the table: the word \<^verbatim>\<open>nurse\<close> occurs three
  times in the corpus and ranks first; the description is padded with periods to 168
  units.\<close>

definition fullJob :: Job where
  "fullJob =
     \<lparr>title = js ''Senior Nurse'',
      description = js ''nurse nurse wanted'' @ replicate 150 46,
      company = Some (js ''Acme''), location = Some (js ''Durban''),
      jobType = Some (js ''Full Time''), category = Some (js ''Health''),
      salary = None, focusKeyphrase = Some (js ''nurse''), metaDescription = Some (js ''x'')\<rparr>"

text \<open>A posting with nothing but a short title and body.\<close>

definition bareJob :: Job where
  "bareJob =
     \<lparr>title = js ''Nurse'', description = js ''Day shift'', company = None, location = None,
      jobType = None, category = None, salary = None, focusKeyphrase = None,
      metaDescription = None\<rparr>"

text \<open>The bare posting with a title of 200 letters.\<close>

definition longTitleJob :: Job where
  "longTitleJob = bareJob\<lparr>title := replicate 200 97\<rparr>"

text \<open>The bare posting with a company that is one space, and with a location of two words.\<close>

definition blankCompanyJob :: Job where
  "blankCompanyJob = bareJob\<lparr>company := Some [32]\<rparr>"

definition durbanNorthJob :: Job where
  "durbanNorthJob = bareJob\<lparr>location := Some (js ''Durban North'')\<rparr>"

section \<open>Empty fields read as absent\<close>

text \<open>The posting with every optional field that holds the empty string set to \<^verbatim>\<open>null\<close>.\<close>

fun noneIfEmpty :: "jsstring option \<Rightarrow> jsstring option" where
  "noneIfEmpty None = None"
| "noneIfEmpty (Some s) = (if s = [] then None else Some s)"

definition emptyAsAbsent :: "Job \<Rightarrow> Job" where
  "emptyAsAbsent job =
     job\<lparr>company := noneIfEmpty (company job), location := noneIfEmpty (location job),
         jobType := noneIfEmpty (jobType job), category := noneIfEmpty (category job),
         salary := noneIfEmpty (salary job), focusKeyphrase := noneIfEmpty (focusKeyphrase job),
         metaDescription := noneIfEmpty (metaDescription job)\<rparr>"

text \<open>The band of lengths that \<open>extractListItems\<close> keeps.\<close>

definition inBand :: "jsstring \<Rightarrow> bool" where
  "inBand p = (11 \<le> length p \<and> length p \<le> 149)"

section \<open>The shape of a normalised title\<close>

text \<open>White space only as single spaces, none next to another; and no white space at
  either end.\<close>

fun spaced :: "jsstring \<Rightarrow> bool" where
  "spaced [] = True"
| "spaced [c] = (isSpace c \<longrightarrow> c = 32)"
| "spaced (c # d # s) = ((isSpace c \<longrightarrow> c = 32) \<and> \<not> (isSpace c \<and> isSpace d) \<and> spaced (d # s))"

definition trimmed :: "jsstring \<Rightarrow> bool" where
  "trimmed s = (s = [] \<or> (\<not> isSpace (hd s) \<and> \<not> isSpace (last s)))"

section \<open>Sections and sample bodies\<close>

text \<open>No section holds anything.\<close>

definition allSectionsEmpty :: "Sections \<Rightarrow> bool" where
  "allSectionsEmpty sections =
     (overview sections = [] \<and> responsibilities sections = [] \<and> requirements sections = []
      \<and> skills sections = [] \<and> companyInfo sections = [] \<and> applicationInfo sections = []
      \<and> contactInfo sections = [])"

text \<open>An engine for the closed examples: under it the built pattern matches nowhere, so
  the text comes back unchanged.\<close>

definition noMatchEngine :: regexp_engine where
  "noMatchEngine pattern s = Inr s"

text \<open>A sort for the closed examples: on a list whose comparator is not consistent it
  leaves the order as it is.\<close>

definition keepOrder :: runtime_sort where
  "keepOrder ks = ks"

text \<open>The bare posting with a body of one space, and with a body that names a contact
  and a phone number inside parentheses.\<close>

definition blankBodyJob :: Job where
  "blankBodyJob = bareJob\<lparr>description := [32]\<rparr>"

definition contactJob :: Job where
  "contactJob = bareJob\<lparr>description := js ''Contact HR (call 011 555 1234)''\<rparr>"

section \<open>Properties of generateMetaDescription\<close>

lemma length_js: "length (js s) = length s"
  by (simp add: js_def)

text \<open>
  Claim C2. For every posting the meta description has at most 160 code units; when the
  assembled template string is longer than 160, the result is its first 157 code units
  followed by three periods and is exactly 160 long (and otherwise it is the assembled
  string itself).
\<close>

theorem generateMetaDescription_cap:
  "length (generateMetaDescription job) \<le> 160 \<and>
   (if 160 < length (assembleMetaDescription job)
    then generateMetaDescription job = take 157 (assembleMetaDescription job) @ [46, 46, 46]
       \<and> length (generateMetaDescription job) = 160
    else generateMetaDescription job = assembleMetaDescription job)"
  by (simp add: generateMetaDescription_def Let_def js_def)

theorem generateMetaDescription_cap_witness:
  "length (assembleMetaDescription longTitleJob) = 293
   \<and> length (generateMetaDescription longTitleJob) = 160
   \<and> drop 157 (generateMetaDescription longTitleJob) = js ''...''"
proof -
  have l: "length (assembleMetaDescription longTitleJob) = 293"
    by (simp add: assembleMetaDescription_def longTitleJob_def bareJob_def js_def)
  then have "160 < length (assembleMetaDescription longTitleJob)" by simp
  with generateMetaDescription_cap[of longTitleJob]
  have g: "generateMetaDescription longTitleJob = take 157 (assembleMetaDescription longTitleJob) @ [46, 46, 46]"
    and "length (generateMetaDescription longTitleJob) = 160"
    by simp_all
  moreover have "drop 157 (generateMetaDescription longTitleJob) = js ''...''"
    unfolding g using l by (simp add: js_def)
  ultimately show ?thesis using l by (simp add: length_js)
qed

section \<open>Evaluating the sample postings\<close>

lemmas text_defs = js_def isDigit_def isWordChar_def isSpace_def trim_def toLowerCase_def lowerUnit_def

lemma replicate_numeral_unfold: "replicate (numeral k) x = x # replicate (pred_numeral k) x"
  by (simp add: numeral_eq_Suc)

lemma fullJob_tokens:
  "keywordTokens (analysisContent fullJob)
   = map js [''senior'', ''nurse'', ''nurse'', ''nurse'', ''wanted'', ''acme'', ''durban'']"
  by (simp add: text_defs analysisContent_def fullJob_def keywordTokens_def splitWs_def stopWords_def
      replicate_numeral_unfold)

lemma rel_nurse: "calculateRelevance (js ''nurse'') = 1"
  and rel_senior: "calculateRelevance (js ''senior'') = 2"
  and rel_wanted: "calculateRelevance (js ''wanted'') = 1"
  and rel_acme: "calculateRelevance (js ''acme'') = 1"
  and rel_durban: "calculateRelevance (js ''durban'') = 2"
  by (simp_all add: calculateRelevance_def industryKeywords_def js_def)

lemma fullJob_entries:
  "objectEntries (countWords (keywordTokens (analysisContent fullJob)))
   = [(js ''senior'', Num 1), (js ''nurse'', Num 3), (js ''wanted'', Num 1), (js ''acme'', Num 1),
      (js ''durban'', Num 1)]"
  unfolding fullJob_tokens
  by (simp add: countWords_def bump_def inheritedFunctions_def objectEntries_def isArrayIndex_def isDigit_def js_def)

lemma fullJob_keywords:
  "extractKeywords sorter (analysisContent fullJob)
   = [\<lparr>termOf = js ''nurse'', frequency = Num 3, relevance = 1\<rparr>,
      \<lparr>termOf = js ''senior'', frequency = Num 1, relevance = 2\<rparr>,
      \<lparr>termOf = js ''durban'', frequency = Num 1, relevance = 2\<rparr>,
      \<lparr>termOf = js ''wanted'', frequency = Num 1, relevance = 1\<rparr>,
      \<lparr>termOf = js ''acme'', frequency = Num 1, relevance = 1\<rparr>]"
  unfolding extractKeywords_def rankedKeywords_def fullJob_entries
  by (simp add: rel_nurse rel_senior rel_wanted rel_acme rel_durban sortKeywords_def insertionSort_def compareFn_def
      rankKey_def)

lemma fullJob_allNine: "allNineApply fullJob (extractKeywords sorter (analysisContent fullJob))"
  unfolding fullJob_keywords
  by (simp add: allNineApply_def topFrequencyIn_def filled_def fullJob_def js_def)

section \<open>Properties of calculateSEOScore\<close>

lemma present_iff: "present v \<longleftrightarrow> filled v"
  by (cases v) (auto simp: filled_def)

lemma truthy_iff: "truthy v \<longleftrightarrow> filled v"
  by (cases v) (auto simp: filled_def)

lemma keywordBonus_iff: "keywordBonus kws \<longleftrightarrow> topFrequencyIn 2 5 kws"
proof (cases kws)
  case Nil
  then show ?thesis by (simp add: keywordBonus_def topFrequencyIn_def)
next
  case (Cons k ks)
  then show ?thesis by (cases "frequency k") (simp_all add: keywordBonus_def topFrequencyIn_def)
qed

lemma titleBonus_iff: "titleBonus job \<longleftrightarrow> (10 \<le> length (title job) \<and> length (title job) \<le> 60)"
  by (auto simp: titleBonus_def)

lemma descriptionBonus_iff:
  "descriptionBonus job \<longleftrightarrow> (150 \<le> length (description job) \<and> length (description job) \<le> 2000)"
  by (auto simp: descriptionBonus_def)

lemma if_bonus: "(if b then s + n else s) = s + bonus b n"
  by (simp add: bonus_def)

lemma bonus_bounds: "0 \<le> n \<Longrightarrow> 0 \<le> bonus b n \<and> bonus b n \<le> n"
  by (simp add: bonus_def)

lemma bonus_True: "bonus True n = n"
  by (simp add: bonus_def)

lemma scoreBeforeClamp_sum: "scoreBeforeClamp job kws = bonusSum job kws"
  unfolding scoreBeforeClamp_def bonusSum_def Let_def if_bonus
    present_iff truthy_iff keywordBonus_iff titleBonus_iff descriptionBonus_iff
  by (rule refl)

lemma nine_bounds:
  fixes a b c d e f g h i :: int
  assumes "0 \<le> a \<and> a \<le> 10" "0 \<le> b \<and> b \<le> 10" "0 \<le> c \<and> c \<le> 10"
    "0 \<le> d \<and> d \<le> 5" "0 \<le> e \<and> e \<le> 5" "0 \<le> f \<and> f \<le> 5" "0 \<le> g \<and> g \<le> 5"
    "0 \<le> h \<and> h \<le> 10" "0 \<le> i \<and> i \<le> 10"
  shows "50 \<le> 50 + a + b + c + d + e + f + g + h + i
    \<and> 50 + a + b + c + d + e + f + g + h + i \<le> 120"
  using assms by auto

lemma bonusSum_bounds: "50 \<le> bonusSum job kws \<and> bonusSum job kws \<le> 120"
  unfolding bonusSum_def by (rule nine_bounds) (simp_all add: bonus_bounds)

lemma bonusSum_all: "allNineApply job kws \<Longrightarrow> bonusSum job kws = 120"
  unfolding bonusSum_def allNineApply_def by (simp add: bonus_True)

lemma analyzeJob_score:
  "score (analyzeJob sorter job) = calculateSEOScore job (extractKeywords sorter (analysisContent job))
     (generateFocusKeyphrase (extractKeywords sorter (analysisContent job)) job)"
  by (simp add: analyzeJob_def Let_def)

text \<open>
  Claim C1, as the code has it. For every posting and every keyword list the score is
  the sum of base 50 and the nine bonuses of the table, each evaluated on its own,
  clamped to the range from 0 to 100; so is the score that \<open>analyzeJob\<close> returns, on the
  keywords it extracts. When all nine bonuses apply the sum before the clamp is 120
  (three of 10, four of 5, two of 10 on top of 50), not 110, and the score is 100.
\<close>

theorem calculateSEOScore_clamped:
  "scoreBeforeClamp job kws = bonusSum job kws
   \<and> calculateSEOScore job kws fk = min 100 (max 0 (bonusSum job kws))
   \<and> 0 \<le> calculateSEOScore job kws fk \<and> calculateSEOScore job kws fk \<le> 100
   \<and> score (analyzeJob sorter job) = min 100 (max 0 (bonusSum job (extractKeywords sorter (analysisContent job))))
   \<and> 0 \<le> score (analyzeJob sorter job) \<and> score (analyzeJob sorter job) \<le> 100
   \<and> (allNineApply job kws \<longrightarrow> scoreBeforeClamp job kws = 120 \<and> calculateSEOScore job kws fk = 100)"
proof -
  have sum: "\<And>ks f. calculateSEOScore job ks f = min 100 (max 0 (bonusSum job ks))"
    by (simp add: calculateSEOScore_def scoreBeforeClamp_sum)
  have rng: "\<And>ks f. 0 \<le> calculateSEOScore job ks f \<and> calculateSEOScore job ks f \<le> 100"
    unfolding sum by simp
  have top: "allNineApply job kws \<longrightarrow> scoreBeforeClamp job kws = 120 \<and> calculateSEOScore job kws fk = 100"
    unfolding sum scoreBeforeClamp_sum by (simp add: bonusSum_all)
  have s1: "score (analyzeJob sorter job) = min 100 (max 0 (bonusSum job (extractKeywords sorter (analysisContent job))))"
    unfolding analyzeJob_score by (rule sum)
  have r1: "0 \<le> score (analyzeJob sorter job) \<and> score (analyzeJob sorter job) \<le> 100"
    unfolding analyzeJob_score by (rule rng)
  show ?thesis
    using scoreBeforeClamp_sum[of job kws] sum[of kws fk] rng[of kws fk] s1 r1 top by blast
qed

theorem calculateSEOScore_clamped_witness:
  "allNineApply fullJob (extractKeywords keepOrder (analysisContent fullJob))
   \<and> scoreBeforeClamp fullJob (extractKeywords keepOrder (analysisContent fullJob)) = 120
   \<and> calculateSEOScore fullJob (extractKeywords keepOrder (analysisContent fullJob)) [] = 100
   \<and> score (analyzeJob keepOrder fullJob) \<le> 100"
  using fullJob_allNine
    calculateSEOScore_clamped[where job = fullJob and fk = "[]" and sorter = keepOrder
      and kws = "extractKeywords keepOrder (analysisContent fullJob)"]
  by blast

text \<open>The claim as stated gives 110 for the sum before the clamp when all nine bonuses
  apply; on the sample posting, which earns all nine, it is not 110.\<close>

theorem scoreBeforeClamp_not_110:
  "allNineApply fullJob (extractKeywords keepOrder (analysisContent fullJob))
   \<and> scoreBeforeClamp fullJob (extractKeywords keepOrder (analysisContent fullJob)) \<noteq> 110"
proof -
  have "scoreBeforeClamp fullJob (extractKeywords keepOrder (analysisContent fullJob)) = 120"
    unfolding fullJob_keywords
    by (simp add: scoreBeforeClamp_def titleBonus_def descriptionBonus_def keywordBonus_def
        fullJob_def js_def)
  then show ?thesis using fullJob_allNine by simp
qed

section \<open>Empty optional fields\<close>

lemma orElse_noneIfEmpty: "orElse (noneIfEmpty v) d = orElse v d"
  by (cases v) auto
lemma truthy_noneIfEmpty: "truthy (noneIfEmpty v) = truthy v"
  by (cases v) auto
lemma present_noneIfEmpty: "present (noneIfEmpty v) = present v"
  by (cases v) auto

lemma analysisContent_emptyAsAbsent: "analysisContent (emptyAsAbsent job) = analysisContent job"
  by (simp add: analysisContent_def emptyAsAbsent_def orElse_noneIfEmpty)

lemma assembleMetaDescription_emptyAsAbsent:
  "assembleMetaDescription (emptyAsAbsent job) = assembleMetaDescription job"
  by (simp add: assembleMetaDescription_def emptyAsAbsent_def orElse_noneIfEmpty truthy_noneIfEmpty Let_def cong: if_cong)

lemma generateMetaDescription_emptyAsAbsent:
  "generateMetaDescription (emptyAsAbsent job) = generateMetaDescription job"
  by (simp add: generateMetaDescription_def assembleMetaDescription_emptyAsAbsent)

lemma generateFocusKeyphrase_emptyAsAbsent:
  "generateFocusKeyphrase kws (emptyAsAbsent job) = generateFocusKeyphrase kws job"
proof (cases "location job")
  case None
  then show ?thesis by (simp add: generateFocusKeyphrase_def cleanLocation_def emptyAsAbsent_def)
next
  case (Some l)
  then show ?thesis
    by (simp add: generateFocusKeyphrase_def cleanLocation_def emptyAsAbsent_def toLowerCase_def trim_def)
qed

lemma scoreBeforeClamp_emptyAsAbsent:
  "scoreBeforeClamp (emptyAsAbsent job) kws = scoreBeforeClamp job kws"
  by (simp add: scoreBeforeClamp_def titleBonus_def descriptionBonus_def emptyAsAbsent_def
      present_noneIfEmpty truthy_noneIfEmpty)

lemma generateRecommendations_emptyAsAbsent:
  "generateRecommendations (emptyAsAbsent job) sc kws = generateRecommendations job sc kws"
  by (simp add: generateRecommendations_def emptyAsAbsent_def truthy_noneIfEmpty)

lemma analyzeJob_emptyAsAbsent: "analyzeJob sorter (emptyAsAbsent job) = analyzeJob sorter job"
proof -
  have t: "title (emptyAsAbsent job) = title job" by (simp add: emptyAsAbsent_def)
  show ?thesis
    unfolding analyzeJob_def Let_def analysisContent_emptyAsAbsent generateMetaDescription_emptyAsAbsent
      generateFocusKeyphrase_emptyAsAbsent calculateSEOScore_def scoreBeforeClamp_emptyAsAbsent
      generateRecommendations_emptyAsAbsent t
    by (rule refl)
qed

lemma restructureContent_emptyAsAbsent:
  "restructureContent engine (emptyAsAbsent job) = restructureContent engine job"
  by (simp add: restructureContent_def emptyAsAbsent_def)

text \<open>
  Claim C9, as the code has it. An optional field (company, location, jobType,
  category, salary, existing focus phrase, existing meta description) that holds the
  empty string is treated by \<open>analyzeJob\<close> and \<open>optimizeJobSEO\<close> exactly as if it were
  absent: setting every such field to \<^verbatim>\<open>null\<close> changes no result. Nothing is said of a
  field that holds white space only; the code never trims a field before testing it.
\<close>

theorem empty_field_is_absent:
  "analyzeJob sorter (emptyAsAbsent job) = analyzeJob sorter job
   \<and> optimizeJobSEO sorter engine (emptyAsAbsent job) = optimizeJobSEO sorter engine job"
proof -
  have t: "title (emptyAsAbsent job) = title job" by (simp add: emptyAsAbsent_def)
  show ?thesis
    unfolding optimizeJobSEO_def analyzeJob_emptyAsAbsent restructureContent_emptyAsAbsent t
    by simp
qed

section \<open>The bare posting and its variants, evaluated\<close>

lemma bareJob_tokens: "keywordTokens (analysisContent bareJob) = map js [''nurse'', ''day'', ''shift'']"
  by (simp add: text_defs analysisContent_def bareJob_def keywordTokens_def splitWs_def stopWords_def)

lemma blankCompanyJob_tokens:
  "keywordTokens (analysisContent blankCompanyJob) = map js [''nurse'', ''day'', ''shift'']"
  by (simp add: text_defs analysisContent_def bareJob_def blankCompanyJob_def keywordTokens_def splitWs_def stopWords_def)

lemma rel_day: "calculateRelevance (js ''day'') = 1"
  and rel_shift: "calculateRelevance (js ''shift'') = 1"
  and rel_north: "calculateRelevance (js ''north'') = 1"
  by (simp_all add: calculateRelevance_def industryKeywords_def js_def)

lemma nurse_day_shift_ranked:
  "take 20 (rankedKeywords sorter (map js [''nurse'', ''day'', ''shift'']))
   = [\<lparr>termOf = js ''nurse'', frequency = Num 1, relevance = 1\<rparr>,
      \<lparr>termOf = js ''day'', frequency = Num 1, relevance = 1\<rparr>,
      \<lparr>termOf = js ''shift'', frequency = Num 1, relevance = 1\<rparr>]"
proof -
  have "objectEntries (countWords (map js [''nurse'', ''day'', ''shift'']))
    = [(js ''nurse'', Num 1), (js ''day'', Num 1), (js ''shift'', Num 1)]"
    by (simp add: countWords_def bump_def inheritedFunctions_def objectEntries_def isArrayIndex_def isDigit_def js_def)
  then show ?thesis
    unfolding rankedKeywords_def
    by (simp add: rel_nurse rel_day rel_shift sortKeywords_def insertionSort_def compareFn_def rankKey_def)
qed

lemma bareJob_score: "score (analyzeJob sorter bareJob) = 50"
  unfolding analyzeJob_score calculateSEOScore_def extractKeywords_def bareJob_tokens nurse_day_shift_ranked
  by (simp add: scoreBeforeClamp_def titleBonus_def descriptionBonus_def keywordBonus_def bareJob_def js_def)

lemma blankCompanyJob_score: "score (analyzeJob sorter blankCompanyJob) = 55"
  unfolding analyzeJob_score calculateSEOScore_def extractKeywords_def blankCompanyJob_tokens nurse_day_shift_ranked
  by (simp add: scoreBeforeClamp_def titleBonus_def descriptionBonus_def keywordBonus_def bareJob_def blankCompanyJob_def js_def)


lemma analyzeJob_recommendations:
  "recommendations (analyzeJob sorter job) = generateRecommendations job (score (analyzeJob sorter job)) (extractKeywords sorter (analysisContent job))"
  by (simp add: analyzeJob_def Let_def)

lemma analyzeJob_meta: "analysisMetaDescription (analyzeJob sorter job) = generateMetaDescription job"
  by (simp add: analyzeJob_def Let_def)

lemma analyzeJob_focus:
  "analysisFocusKeyphrase (analyzeJob sorter job) = generateFocusKeyphrase (extractKeywords sorter (analysisContent job)) job"
  by (simp add: analyzeJob_def Let_def)

text \<open>
  A company of one space is not treated as absent: against the same posting without a
  company it earns 5 points more, the recommendation to add a company is not given, and
  the meta description holds the space where the default \<^verbatim>\<open>Leading company\<close> would be.
\<close>

theorem blank_company_counts_as_present:
  "score (analyzeJob keepOrder blankCompanyJob) = 55 \<and> score (analyzeJob keepOrder bareJob) = 50
   \<and> js ''Add company name for better credibility'' \<in> set (recommendations (analyzeJob keepOrder bareJob))
   \<and> js ''Add company name for better credibility'' \<notin> set (recommendations (analyzeJob keepOrder blankCompanyJob))
   \<and> take 20 (analysisMetaDescription (analyzeJob keepOrder bareJob)) = js ''Join Leading company''
   \<and> take 11 (analysisMetaDescription (analyzeJob keepOrder blankCompanyJob)) = js ''Join   as a''"
proof -
  have r1: "js ''Add company name for better credibility'' \<in> set (recommendations (analyzeJob keepOrder bareJob))"
    unfolding analyzeJob_recommendations bareJob_score extractKeywords_def bareJob_tokens nurse_day_shift_ranked
    by (simp add: generateRecommendations_def bareJob_def js_def)
  have r2: "js ''Add company name for better credibility'' \<notin> set (recommendations (analyzeJob keepOrder blankCompanyJob))"
    unfolding analyzeJob_recommendations blankCompanyJob_score extractKeywords_def blankCompanyJob_tokens nurse_day_shift_ranked
    by (simp add: generateRecommendations_def bareJob_def blankCompanyJob_def js_def)
  have m1: "take 20 (analysisMetaDescription (analyzeJob keepOrder bareJob)) = js ''Join Leading company''"
    unfolding analyzeJob_meta
    by (simp add: generateMetaDescription_def assembleMetaDescription_def bareJob_def js_def)
  have m2: "take 11 (analysisMetaDescription (analyzeJob keepOrder blankCompanyJob)) = js ''Join   as a''"
    unfolding analyzeJob_meta
    by (simp add: generateMetaDescription_def assembleMetaDescription_def bareJob_def blankCompanyJob_def js_def)
  show ?thesis using bareJob_score blankCompanyJob_score r1 r2 m1 m2 by blast
qed

theorem empty_field_is_absent_witness:
  "analyzeJob keepOrder (bareJob\<lparr>company := Some [], salary := Some []\<rparr>) = analyzeJob keepOrder bareJob"
proof -
  have "emptyAsAbsent (bareJob\<lparr>company := Some [], salary := Some []\<rparr>) = bareJob"
    by (simp add: emptyAsAbsent_def bareJob_def)
  then show ?thesis
    using empty_field_is_absent[where job = "bareJob\<lparr>company := Some [], salary := Some []\<rparr>"
        and sorter = keepOrder]
    by simp
qed

section \<open>Properties of generateFocusKeyphrase\<close>

text \<open>With three or more candidates the location is appended in fourth place and cut off
  again: the phrase is made of the first three candidate terms, whatever the location.\<close>

lemma generateFocusKeyphrase_three:
  assumes "3 \<le> length kws"
  shows "generateFocusKeyphrase kws job = joinWith [32] (map termOf (take 3 kws))"
  using assms by (simp add: generateFocusKeyphrase_def Let_def min_def split: option.split)

lemma durbanNorthJob_tokens:
  "keywordTokens (analysisContent durbanNorthJob) = map js [''nurse'', ''day'', ''shift'', ''durban'', ''north'']"
  by (simp add: text_defs analysisContent_def bareJob_def durbanNorthJob_def keywordTokens_def splitWs_def stopWords_def)

lemma durbanNorthJob_keywords:
  "extractKeywords sorter (analysisContent durbanNorthJob)
   = [\<lparr>termOf = js ''durban'', frequency = Num 1, relevance = 2\<rparr>,
      \<lparr>termOf = js ''nurse'', frequency = Num 1, relevance = 1\<rparr>,
      \<lparr>termOf = js ''day'', frequency = Num 1, relevance = 1\<rparr>,
      \<lparr>termOf = js ''shift'', frequency = Num 1, relevance = 1\<rparr>,
      \<lparr>termOf = js ''north'', frequency = Num 1, relevance = 1\<rparr>]"
proof -
  have "objectEntries (countWords (map js [''nurse'', ''day'', ''shift'', ''durban'', ''north'']))
    = [(js ''nurse'', Num 1), (js ''day'', Num 1), (js ''shift'', Num 1), (js ''durban'', Num 1), (js ''north'', Num 1)]"
    by (simp add: countWords_def bump_def inheritedFunctions_def objectEntries_def isArrayIndex_def isDigit_def js_def)
  then show ?thesis
    unfolding extractKeywords_def durbanNorthJob_tokens rankedKeywords_def
    by (simp add: rel_nurse rel_day rel_shift rel_durban rel_north sortKeywords_def insertionSort_def compareFn_def rankKey_def)
qed

text \<open>With fewer than three candidates the appended location stays in the phrase.\<close>

lemma generateFocusKeyphrase_few:
  assumes "length kws < 3" and "cleanLocation job = Some loc" and "loc \<noteq> []"
    and "loc \<notin> set (map termOf (take 3 kws))"
  shows "generateFocusKeyphrase kws job = joinWith [32] (map termOf kws @ [loc])"
  using assms by (simp add: generateFocusKeyphrase_def Let_def)

text \<open>
  Claim C4, as the code has it. For a posting with at least three ranked candidates whose
  cleaned location is not empty and is none of the first three terms, the focus phrase
  is made of the first three entries of the sequence of the top three terms followed by
  the location, joined by single spaces. These three entries are the top three terms
  themselves: the location stands fourth and is cut off, so it does not displace the
  third keyword and is no entry of the phrase.
\<close>

theorem generateFocusKeyphrase_top_three:
  assumes "3 \<le> length kws" and "cleanLocation job = Some loc" and "loc \<noteq> []"
    and "loc \<notin> set (map termOf (take 3 kws))"
  shows "generateFocusKeyphrase kws job = joinWith [32] (take 3 (map termOf (take 3 kws) @ [loc]))
    \<and> length (take 3 (map termOf (take 3 kws) @ [loc])) = 3
    \<and> take 3 (map termOf (take 3 kws) @ [loc]) = map termOf (take 3 kws)
    \<and> loc \<notin> set (take 3 (map termOf (take 3 kws) @ [loc]))"
proof -
  have t: "take 3 (map termOf (take 3 kws) @ [loc]) = map termOf (take 3 kws)"
    using assms(1) by simp
  have g: "generateFocusKeyphrase kws job = joinWith [32] (take 3 (map termOf (take 3 kws) @ [loc]))"
    using assms(2-4) by (simp add: generateFocusKeyphrase_def Let_def)
  have l: "length (take 3 (map termOf (take 3 kws) @ [loc])) = 3"
    using assms(1) by simp
  show ?thesis using t g l assms(4) by simp
qed

lemma durbanNorthJob_location: "cleanLocation durbanNorthJob = Some (js ''durban north'')"
  by (simp add: cleanLocation_def durbanNorthJob_def bareJob_def text_defs)

theorem generateFocusKeyphrase_top_three_witness:
  "3 \<le> length (extractKeywords keepOrder (analysisContent durbanNorthJob))
   \<and> cleanLocation durbanNorthJob = Some (js ''durban north'')
   \<and> js ''durban north'' \<notin> set (map termOf (take 3 (extractKeywords keepOrder (analysisContent durbanNorthJob))))
   \<and> generateFocusKeyphrase (extractKeywords keepOrder (analysisContent durbanNorthJob)) durbanNorthJob
     = joinWith [32] (map termOf (take 3 (extractKeywords keepOrder (analysisContent durbanNorthJob))))"
proof -
  let ?K = "extractKeywords keepOrder (analysisContent durbanNorthJob)"
  have 1: "3 \<le> length ?K" unfolding durbanNorthJob_keywords by simp
  have 2: "js ''durban north'' \<noteq> []" by (simp add: js_def)
  have 3: "js ''durban north'' \<notin> set (map termOf (take 3 ?K))"
    unfolding durbanNorthJob_keywords by (simp add: js_def)
  from generateFocusKeyphrase_top_three[OF 1 durbanNorthJob_location 2 3]
  have "generateFocusKeyphrase ?K durbanNorthJob = joinWith [32] (map termOf (take 3 ?K))"
    by simp
  with 1 3 durbanNorthJob_location show ?thesis by blast
qed

text \<open>
  The claim as stated lets the appended location displace the third keyword and appear in
  the phrase. At a posting with the five ranked candidates \<^verbatim>\<open>durban\<close>, \<^verbatim>\<open>nurse\<close>, \<^verbatim>\<open>day\<close>,
  \<^verbatim>\<open>shift\<close>, \<^verbatim>\<open>north\<close> and the location \<^verbatim>\<open>Durban North\<close>, whose cleaned form is none of
  the first three terms, the phrase keeps the third keyword \<^verbatim>\<open>day\<close> and does not hold the
  location.
\<close>

theorem focusKeyphrase_drops_location:
  "map termOf (extractKeywords keepOrder (analysisContent durbanNorthJob))
     = map js [''durban'', ''nurse'', ''day'', ''shift'', ''north'']
   \<and> cleanLocation durbanNorthJob = Some (js ''durban north'')
   \<and> generateFocusKeyphrase (extractKeywords keepOrder (analysisContent durbanNorthJob)) durbanNorthJob
     = js ''durban nurse day''
   \<and> analysisFocusKeyphrase (analyzeJob keepOrder durbanNorthJob) = js ''durban nurse day''
   \<and> \<not> includesStr (analysisFocusKeyphrase (analyzeJob keepOrder durbanNorthJob)) (js ''durban north'')"
proof -
  have g: "generateFocusKeyphrase (extractKeywords keepOrder (analysisContent durbanNorthJob)) durbanNorthJob
     = js ''durban nurse day''"
    unfolding durbanNorthJob_keywords generateFocusKeyphrase_def durbanNorthJob_location
    by (simp add: js_def)
  have n: "\<not> includesStr (js ''durban nurse day'') (js ''durban north'')"
    by (simp add: js_def)
  show ?thesis
    using durbanNorthJob_location g n by (simp add: analyzeJob_focus durbanNorthJob_keywords)
qed

section \<open>Properties of extractListItems\<close>

lemma splitOn_nonempty: "splitOn d s \<noteq> []"
  by (induction s) (auto split: list.split)

lemma splitOn_plain: "(\<forall>c\<in>set p. \<not> d c) \<Longrightarrow> splitOn d p = [p]"
  by (induction p) auto

lemma splitOn_append:
  "(\<forall>c\<in>set p. \<not> d c) \<Longrightarrow> d c \<Longrightarrow> splitOn d (p @ c # rest) = p # splitOn d rest"
  by (induction p) auto

lemma splitOn_pieces: "p \<in> set (splitOn d s) \<Longrightarrow> c \<in> set p \<Longrightarrow> \<not> d c"
proof (induction s arbitrary: p)
  case Nil
  then show ?case by simp
next
  case (Cons a s)
  show ?case
  proof (cases "d a")
    case True
    with Cons show ?thesis by auto
  next
    case False
    obtain q qs where q: "splitOn d s = q # qs"
      using splitOn_nonempty[of d s] by (cases "splitOn d s") auto
    with False Cons.prems have "p = a # q \<or> p \<in> set qs" by auto
    then show ?thesis
    proof
      assume "p = a # q"
      with Cons.prems(2) have "c = a \<or> c \<in> set q" by auto
      then show ?thesis using False Cons.IH[of q] q by auto
    next
      assume "p \<in> set qs"
      then show ?thesis using Cons.IH[of p] Cons.prems(2) q by auto
    qed
  qed
qed

lemma extractListItems_filter:
  "extractListItems s = take 8 (filter inBand (map trim (splitOn isBullet s)))"
proof -
  have "(\<lambda>item::jsstring. length item > 10 \<and> length item < 150) = inBand"
    by (auto simp: inBand_def fun_eq_iff)
  then show ?thesis by (simp add: extractListItems_def Let_def)
qed

text \<open>
  Claim C5, as the code has it. The list items of a captured span are obtained by
  splitting it at the bullet delimiters (a span without delimiter is one piece, and a
  piece ends at the first delimiter), trimming each piece, keeping exactly the pieces
  whose trimmed length is more than 10 and less than 150, that is from 11 to 149, in
  their order, and cutting the list to at most 8 items. A piece of length 10 is not kept,
  and neither is one of length 150.
\<close>

theorem extractListItems_band:
  "extractListItems s = take 8 (filter inBand (map trim (splitOn isBullet s)))
   \<and> length (extractListItems s) \<le> 8
   \<and> (\<forall>i \<in> set (extractListItems s). 11 \<le> length i \<and> length i \<le> 149)
   \<and> ((\<forall>c\<in>set p. \<not> isBullet c) \<longrightarrow> splitOn isBullet p = [p])
   \<and> ((\<forall>c\<in>set p. \<not> isBullet c) \<and> isBullet b \<longrightarrow>
        splitOn isBullet (p @ b # rest) = p # splitOn isBullet rest)"
proof -
  have a: "extractListItems s = take 8 (filter inBand (map trim (splitOn isBullet s)))"
    by (rule extractListItems_filter)
  have b: "length (extractListItems s) \<le> 8"
    unfolding a by simp
  have c: "\<forall>i \<in> set (extractListItems s). 11 \<le> length i \<and> length i \<le> 149"
  proof
    fix i assume "i \<in> set (extractListItems s)"
    then have "i \<in> set (filter inBand (map trim (splitOn isBullet s)))"
      unfolding a by (rule in_set_takeD)
    then have "inBand i" by simp
    then show "11 \<le> length i \<and> length i \<le> 149" by (simp add: inBand_def)
  qed
  show ?thesis
    using a b c splitOn_plain[of p isBullet] splitOn_append[of p isBullet b rest] by blast
qed

lemma trim_plain: "trim (js ''abcdefghijk'') = js ''abcdefghijk''" "trim (js ''abcdefghij '') = js ''abcdefghij''"
   "trim (js '' abcdefghijk'') = js ''abcdefghijk''"
  by (simp_all add: text_defs)

theorem extractListItems_band_witness:
  "list_all (\<lambda>c. \<not> isBullet c) (js ''abcdefghij '') \<and> isBullet 45
   \<and> splitOn isBullet (js ''abcdefghij - abcdefghijk'') = [js ''abcdefghij '', js '' abcdefghijk'']
   \<and> extractListItems (js ''abcdefghij - abcdefghijk'') = [js ''abcdefghijk'']"
proof -
  have h1: "\<forall>c\<in>set (js ''abcdefghij ''). \<not> isBullet c" by (simp add: js_def isBullet_def)
  have h2: "\<forall>c\<in>set (js '' abcdefghijk''). \<not> isBullet c" by (simp add: js_def isBullet_def)
  have h3: "isBullet 45" by (simp add: isBullet_def)
  have e: "js ''abcdefghij - abcdefghijk'' = js ''abcdefghij '' @ 45 # js '' abcdefghijk''"
    by (simp add: js_def)
  from extractListItems_band[of "js '' abcdefghijk''" "js '' abcdefghijk''" 45 "[]"] h2
  have s2: "splitOn isBullet (js '' abcdefghijk'') = [js '' abcdefghijk'']" by blast
  from extractListItems_band[of "js ''abcdefghij - abcdefghijk''" "js ''abcdefghij ''" 45 "js '' abcdefghijk''"] h1 h3
  have s1: "splitOn isBullet (js ''abcdefghij '' @ 45 # js '' abcdefghijk'') = js ''abcdefghij '' # splitOn isBullet (js '' abcdefghijk'')"
    and x: "extractListItems (js ''abcdefghij - abcdefghijk'') = take 8 (filter inBand (map trim (splitOn isBullet (js ''abcdefghij - abcdefghijk''))))"
    by blast+
  have sp: "splitOn isBullet (js ''abcdefghij - abcdefghijk'') = [js ''abcdefghij '', js '' abcdefghijk'']"
    unfolding e s1 s2 by (rule refl)
  have "extractListItems (js ''abcdefghij - abcdefghijk'') = [js ''abcdefghijk'']"
    unfolding x sp by (simp add: trim_plain inBand_def length_js)
  with h1 h3 sp show ?thesis by (simp add: list_all_iff)
qed

text \<open>The claim as stated keeps a piece of length exactly 10. The span below has the two
  pieces of lengths 0 and 10 (after trimming), and no item comes out.\<close>

theorem ten_unit_piece_dropped:
  "splitOn isBullet (js ''- abcdefghij '') = [[], js '' abcdefghij '']
   \<and> trim (js '' abcdefghij '') = js ''abcdefghij''
   \<and> length (js ''abcdefghij'') = 10
   \<and> extractListItems (js ''- abcdefghij '') = []"
  by (simp add: extractListItems_def isBullet_def text_defs)

section \<open>optimizeTitle and the hyphen\<close>

lemma hyphen_class: "\<not> titlePunct 45" "\<not> isSpace 45" "\<not> isWordChar 45"
  by (simp_all add: titlePunct_def isSpace_def isWordChar_def)

lemma space_not_hyphen: "isSpace c \<Longrightarrow> c \<noteq> 45"
  by (auto simp: isSpace_def)

lemma upperWordChar_hyphen: "isWordChar c \<Longrightarrow> upperWordChar c \<noteq> 45"
  by (auto simp: isWordChar_def upperWordChar_def)

lemma count_replacePunct: "count_list (replacePunct s) 45 = count_list s 45"
  by (induction s) (auto simp: replacePunct_def hyphen_class)

lemma count_collapseGo: "count_list (collapseGo b s) 45 = count_list s 45"
  by (induction s arbitrary: b) (auto simp: space_not_hyphen)

lemma count_dropWhile_space: "count_list (dropWhile isSpace s) 45 = count_list s 45"
  by (induction s) (auto simp: space_not_hyphen)

lemma count_trim: "count_list (trim s) 45 = count_list s 45"
  by (simp add: trim_def count_dropWhile_space)

lemma count_capGo: "count_list (capGo b s) 45 = count_list s 45"
  by (induction s arbitrary: b) (auto simp: upperWordChar_hyphen hyphen_class)

lemma count_titleCore: "count_list (titleCore t) 45 = count_list t 45"
  by (simp add: titleCore_def capitalizeWords_def collapseWs_def count_capGo count_trim
      count_collapseGo count_replacePunct)

lemma suffix_literal: "js '' - South Africa'' = [32, 45, 32, 83, 111, 117, 116, 104, 32, 65, 102, 114, 105, 99, 97]"
  by (simp add: js_def)

text \<open>
  Claim C10. The hyphen is not in the class of characters that \<open>optimizeTitle\<close> replaces
  with spaces, and no step removes or produces one: the title before the suffix has
  exactly the hyphens of the input, and the output has one more when the suffix
  \<^verbatim>\<open> - South Africa\<close> is appended. The suffix itself passes the replacement unchanged.
\<close>

theorem optimizeTitle_keeps_hyphens:
  "\<not> titlePunct 45
   \<and> count_list (replacePunct t) 45 = count_list t 45
   \<and> count_list (titleCore t) 45 = count_list t 45
   \<and> count_list (optimizeTitle t) 45
       = count_list t 45 + (if hasLocalityMarker (titleCore t) then 0 else 1)
   \<and> count_list t 45 \<le> count_list (optimizeTitle t) 45
   \<and> replacePunct (js '' - South Africa'') = js '' - South Africa''"
proof -
  have o: "count_list (optimizeTitle t) 45
       = count_list t 45 + (if hasLocalityMarker (titleCore t) then 0 else 1)"
    by (simp add: optimizeTitle_def Let_def count_titleCore suffix_literal)
  have s: "replacePunct (js '' - South Africa'') = js '' - South Africa''"
    by (simp add: suffix_literal replacePunct_def titlePunct_def)
  show ?thesis
    using hyphen_class(1) count_replacePunct[of t] count_titleCore[of t] o s by simp
qed

lemmas title_defs = optimizeTitle_def titleCore_def capitalizeWords_def trim_def collapseWs_def
  replacePunct_def titlePunct_def js_def isSpace_def isWordChar_def upperWordChar_def
  hasLocalityMarker_def toLowerCase_def lowerUnit_def

theorem optimizeTitle_keeps_hyphens_witness:
  "optimizeTitle (js ''part-time: nurse - remote'') = js ''Part-Time Nurse - Remote''
   \<and> count_list (optimizeTitle (js ''part-time: nurse - remote'')) 45 = 2
   \<and> count_list (js ''part-time: nurse - remote'') 45 = 2"
proof -
  have e: "optimizeTitle (js ''part-time: nurse - remote'') = js ''Part-Time Nurse - Remote''"
    by (simp add: title_defs)
  have c: "count_list (js ''part-time: nurse - remote'') 45 = 2"
    by (simp add: js_def)
  have m: "hasLocalityMarker (titleCore (js ''part-time: nurse - remote''))"
    by (simp add: title_defs)
  show ?thesis
    using optimizeTitle_keeps_hyphens[of "js ''part-time: nurse - remote''"] e c m by simp
qed

section \<open>optimizeTitle applied twice\<close>

lemma spaced_Cons:
  "spaced (c # x) = ((isSpace c \<longrightarrow> c = 32 \<and> (x = [] \<or> \<not> isSpace (hd x))) \<and> spaced x)"
  by (cases x) auto

lemma spaced_tail: "spaced (c # x) \<Longrightarrow> spaced x"
  by (simp add: spaced_Cons)

lemma spaced_snoc:
  "spaced (x @ [c]) = (spaced x \<and> (isSpace c \<longrightarrow> c = 32 \<and> (x = [] \<or> \<not> isSpace (last x))))"
proof (induction x)
  case Nil
  then show ?case by simp
next
  case (Cons a x)
  show ?case
  proof (cases x)
    case Nil
    then show ?thesis by auto
  next
    case (Cons b y)
    with Cons.IH show ?thesis by (auto simp: spaced_Cons)
  qed
qed

lemma spaced_rev: "spaced (rev s) = spaced s"
proof (induction s)
  case Nil
  then show ?case by simp
next
  case (Cons a s)
  then show ?case by (auto simp: spaced_snoc spaced_Cons last_rev)
qed

lemma spaced_dropWhile: "spaced s \<Longrightarrow> spaced (dropWhile P s)"
  by (induction s) (auto dest: spaced_tail)

lemma spaced_trim: "spaced s \<Longrightarrow> spaced (trim s)"
  by (simp add: trim_def spaced_rev spaced_dropWhile)

lemma collapseGo_True_head: "collapseGo True s = [] \<or> \<not> isSpace (hd (collapseGo True s))"
  by (induction s) auto

lemma space32: "isSpace 32"
  by (simp add: isSpace_def)

lemma spaced_collapseGo: "spaced (collapseGo b s)"
proof (induction s arbitrary: b)
  case Nil
  then show ?case by simp
next
  case (Cons c s)
  show ?case
  proof (cases "isSpace c")
    case True
    then show ?thesis
      using Cons.IH[of True] collapseGo_True_head[of s] by (cases b) (auto simp: spaced_Cons)
  next
    case False
    then show ?thesis using Cons.IH[of False] by (simp add: spaced_Cons)
  qed
qed

lemma collapseGo_flag: "x = [] \<or> \<not> isSpace (hd x) \<Longrightarrow> collapseGo True x = collapseGo False x"
  by (cases x) auto

lemma spaced_collapse_id: "spaced s \<Longrightarrow> collapseGo False s = s"
proof (induction s)
  case Nil
  then show ?case by simp
next
  case (Cons c s)
  then have s: "spaced s" and h: "isSpace c \<longrightarrow> c = 32 \<and> (s = [] \<or> \<not> isSpace (hd s))"
    by (simp_all add: spaced_Cons)
  show ?case
  proof (cases "isSpace c")
    case True
    with h have "collapseGo True s = collapseGo False s" by (simp add: collapseGo_flag)
    with True h Cons.IH[OF s] show ?thesis by simp
  next
    case False
    with Cons.IH[OF s] show ?thesis by simp
  qed
qed

lemma last_dropWhile: "dropWhile P s \<noteq> [] \<Longrightarrow> last (dropWhile P s) = last s"
  by (induction s) (auto split: if_splits)

lemma trimmed_trim: "trimmed (trim s)"
proof (cases "trim s = []")
  case True
  then show ?thesis by (simp add: trimmed_def)
next
  case False
  define u where "u = dropWhile isSpace s"
  define v where "v = dropWhile isSpace (rev u)"
  have t: "trim s = rev v" by (simp add: trim_def u_def v_def)
  with False have v: "v \<noteq> []" by simp
  then have u: "u \<noteq> []" by (auto simp: v_def)
  have "last v = last (rev u)" using v unfolding v_def by (rule last_dropWhile)
  then have "last v = hd u" by (simp add: last_rev)
  moreover have "\<not> isSpace (hd u)" using u unfolding u_def by (rule hd_dropWhile)
  moreover have "\<not> isSpace (hd v)" using v unfolding v_def by (rule hd_dropWhile)
  ultimately show ?thesis using v by (simp add: trimmed_def t hd_rev last_rev)
qed

lemma trimmed_trim_id: "trimmed s \<Longrightarrow> trim s = s"
proof (cases "s = []")
  case True
  then show ?thesis by (simp add: trim_def)
next
  case False
  assume "trimmed s"
  with False have h: "\<not> isSpace (hd s)" and l: "\<not> isSpace (last s)" by (simp_all add: trimmed_def)
  from h have 1: "dropWhile isSpace s = s" by (simp add: dropWhile_eq_self_iff)
  from l False have 2: "dropWhile isSpace (rev s) = rev s" by (simp add: dropWhile_eq_self_iff hd_rev)
  show ?thesis by (simp add: trim_def 1 2)
qed

lemma upper_word: "isWordChar c \<Longrightarrow> isWordChar (upperWordChar c)"
  by (auto simp: isWordChar_def upperWordChar_def)

lemma word_not_space: "isWordChar c \<Longrightarrow> \<not> isSpace c"
  by (auto simp: isWordChar_def isSpace_def)

lemma upper_upper: "upperWordChar (upperWordChar c) = upperWordChar c"
  by (auto simp: upperWordChar_def)

lemma capital_not_punct: "65 \<le> c \<Longrightarrow> c \<le> 90 \<Longrightarrow> \<not> titlePunct c"
  by (simp add: titlePunct_def)

lemma upper_punct: "\<not> titlePunct c \<Longrightarrow> \<not> titlePunct (upperWordChar c)"
proof (cases "97 \<le> c \<and> c \<le> 122")
  case True
  then have "65 \<le> c - 32" "c - 32 \<le> 90" by arith+
  then have "\<not> titlePunct (c - 32)" by (rule capital_not_punct)
  with True show ?thesis by (simp add: upperWordChar_def)
next
  case False
  assume "\<not> titlePunct c"
  with False show ?thesis by (auto simp: upperWordChar_def)
qed

text \<open>The head unit that capGo writes.\<close>

lemma capHead_space: "isSpace (if isWordChar c \<and> \<not> b then upperWordChar c else c) = isSpace c"
  by (auto dest: word_not_space upper_word)

lemma capHead_32: "((if isWordChar c \<and> \<not> b then upperWordChar c else c) = 32) = (c = 32)"
  using capHead_space[of c b] space32
  by (metis upper_word word_not_space)

lemma capGo_Nil_iff: "capGo b s = [] \<longleftrightarrow> s = []"
  by (cases s) auto

lemma capGo_hd_space: "s \<noteq> [] \<Longrightarrow> isSpace (hd (capGo b s)) = isSpace (hd s)"
  by (cases s) (auto dest: word_not_space upper_word)

lemma capGo_last_space: "s \<noteq> [] \<Longrightarrow> isSpace (last (capGo b s)) = isSpace (last s)"
proof (induction s arbitrary: b)
  case Nil
  then show ?case by simp
next
  case (Cons c s)
  show ?case
  proof (cases "s = []")
    case True
    then show ?thesis by (auto dest: word_not_space upper_word)
  next
    case False
    then show ?thesis using Cons.IH[of "isWordChar c"] by (simp add: capGo_Nil_iff)
  qed
qed

lemma spaced_capGo: "spaced (capGo b s) = spaced s"
proof (induction s arbitrary: b)
  case Nil
  then show ?case by simp
next
  case (Cons c s)
  show ?case
    unfolding capGo.simps spaced_Cons capHead_space capHead_32 Cons.IH capGo_Nil_iff
    using capGo_hd_space[of s "isWordChar c"] by auto
qed

lemma trimmed_capGo: "trimmed (capGo b s) = trimmed s"
  by (cases "s = []") (simp_all add: trimmed_def capGo_Nil_iff capGo_hd_space capGo_last_space)

lemma capGo_idem: "capGo b (capGo b s) = capGo b s"
proof (induction s arbitrary: b)
  case Nil
  then show ?case by simp
next
  case (Cons c s)
  have w: "isWordChar (if isWordChar c \<and> \<not> b then upperWordChar c else c) = isWordChar c"
    by (auto dest: upper_word)
  show ?case
    unfolding capGo.simps w Cons.IH by (simp add: upper_upper)
qed

lemma capGo_append:
  "capGo b (x @ y) = capGo b x @ capGo (if x = [] then b else isWordChar (last x)) y"
  by (induction x arbitrary: b) auto


lemma replacePunct_free: "\<forall>c\<in>set (replacePunct s). \<not> titlePunct c"
  by (auto simp: replacePunct_def titlePunct_def)

lemma collapseGo_set: "set (collapseGo b s) \<subseteq> insert 32 (set s)"
  by (induction s arbitrary: b) auto

lemma trim_set: "set (trim s) \<subseteq> set s"
  by (auto simp: trim_def dest!: set_dropWhileD)

lemma capGo_free: "\<forall>c\<in>set s. \<not> titlePunct c \<Longrightarrow> \<forall>c\<in>set (capGo b s). \<not> titlePunct c"
  by (induction s arbitrary: b) (auto simp: upper_punct)

lemma space_not_punct: "\<not> titlePunct 32"
  by (simp add: titlePunct_def)

lemma titleCore_free: "\<forall>c\<in>set (titleCore t). \<not> titlePunct c"
proof -
  have "\<forall>c\<in>set (trim (collapseWs (replacePunct t))). \<not> titlePunct c"
    using trim_set[of "collapseWs (replacePunct t)"] collapseGo_set[of False "replacePunct t"]
      replacePunct_free[of t] space_not_punct
    unfolding collapseWs_def by blast
  then show ?thesis unfolding titleCore_def capitalizeWords_def by (rule capGo_free)
qed

lemma replacePunct_id: "\<forall>c\<in>set s. \<not> titlePunct c \<Longrightarrow> replacePunct s = s"
  by (induction s) (auto simp: replacePunct_def)

lemma titleCore_spaced: "spaced (titleCore t)"
  by (simp add: titleCore_def capitalizeWords_def collapseWs_def spaced_capGo spaced_trim spaced_collapseGo)

lemma titleCore_trimmed: "trimmed (titleCore t)"
  by (simp add: titleCore_def capitalizeWords_def trimmed_capGo trimmed_trim)

lemma titleCore_capped: "capGo False (titleCore t) = titleCore t"
  by (simp add: titleCore_def capitalizeWords_def capGo_idem)

text \<open>A string of the shape of a normalised title is a fixed point of the normalisation.\<close>

lemma titleCore_fixed:
  assumes "\<forall>c\<in>set s. \<not> titlePunct c" "spaced s" "trimmed s" "capGo False s = s"
  shows "titleCore s = s"
  using assms
  by (simp add: titleCore_def capitalizeWords_def collapseWs_def replacePunct_id spaced_collapse_id
      trimmed_trim_id)

lemma titleCore_idem: "titleCore (titleCore t) = titleCore t"
  by (rule titleCore_fixed) (simp_all add: titleCore_free titleCore_spaced titleCore_trimmed titleCore_capped)

lemma spaced_append:
  "spaced a \<Longrightarrow> spaced b \<Longrightarrow> a \<noteq> [] \<Longrightarrow> \<not> isSpace (last a) \<Longrightarrow> spaced (a @ b)"
proof (induction a)
  case Nil
  then show ?case by simp
next
  case (Cons c a)
  show ?case
  proof (cases "a = []")
    case True
    with Cons.prems show ?thesis by (simp add: spaced_Cons)
  next
    case False
    with Cons show ?thesis by (auto simp: spaced_Cons)
  qed
qed

lemma suffix_shape:
  "\<forall>c\<in>set (js '' - South Africa''). \<not> titlePunct c"
  "spaced (js '' - South Africa'')"
  "\<not> isSpace (last (js '' - South Africa''))"
  "capGo b (js '' - South Africa'') = js '' - South Africa''"
  by (simp_all add: suffix_literal titlePunct_def isSpace_def isWordChar_def upperWordChar_def)

lemma includesStr_append: "includesStr b t \<Longrightarrow> includesStr (a @ b) t"
  by (induction a) auto

lemma toLowerCase_append: "toLowerCase (a @ b) = toLowerCase a @ toLowerCase b"
  by (simp add: toLowerCase_def)

lemma suffix_marker: "hasLocalityMarker (a @ js '' - South Africa'')"
proof -
  have "includesStr (toLowerCase (js '' - South Africa'')) (js ''south africa'')"
    by (simp add: js_def toLowerCase_def lowerUnit_def)
  then have "includesStr (toLowerCase (a @ js '' - South Africa'')) (js ''south africa'')"
    unfolding toLowerCase_append by (rule includesStr_append)
  then show ?thesis by (simp add: hasLocalityMarker_def Let_def)
qed

lemma optimizeTitle_marker: "hasLocalityMarker (optimizeTitle t)"
  by (simp add: optimizeTitle_def Let_def suffix_marker)

lemma titleCore_with_suffix:
  assumes "titleCore t \<noteq> []"
  shows "titleCore (titleCore t @ js '' - South Africa'') = titleCore t @ js '' - South Africa''"
proof (rule titleCore_fixed)
  let ?c = "titleCore t" and ?s = "js '' - South Africa''"
  have l: "\<not> isSpace (last ?c)" using assms titleCore_trimmed[of t] by (simp add: trimmed_def)
  have h: "\<not> isSpace (hd ?c)" using assms titleCore_trimmed[of t] by (simp add: trimmed_def)
  have ne: "?s \<noteq> []" by (simp add: suffix_literal)
  show "\<forall>c\<in>set (?c @ ?s). \<not> titlePunct c"
    using titleCore_free[of t] suffix_shape(1) by auto
  show "spaced (?c @ ?s)"
    using titleCore_spaced suffix_shape(2) assms l by (rule spaced_append)
  show "trimmed (?c @ ?s)"
    using assms h ne suffix_shape(3) by (simp add: trimmed_def)
  show "capGo False (?c @ ?s) = ?c @ ?s"
    using assms by (simp add: capGo_append titleCore_capped suffix_shape(4))
qed

lemma optimizeTitle_idem: "titleCore t \<noteq> [] \<Longrightarrow> optimizeTitle (optimizeTitle t) = optimizeTitle t"
proof (cases "hasLocalityMarker (titleCore t)")
  case True
  then show ?thesis by (simp add: optimizeTitle_def Let_def titleCore_idem)
next
  case False
  assume "titleCore t \<noteq> []"
  then have "titleCore (titleCore t @ js '' - South Africa'') = titleCore t @ js '' - South Africa''"
    by (rule titleCore_with_suffix)
  with False show ?thesis by (simp add: optimizeTitle_def Let_def suffix_marker)
qed

lemma optimizeTitle_empty_core:
  assumes "titleCore t = []"
  shows "optimizeTitle t = js '' - South Africa''" "optimizeTitle (optimizeTitle t) = js ''- South Africa''"
proof -
  have m: "\<not> hasLocalityMarker []"
    by (simp add: hasLocalityMarker_def toLowerCase_def js_def)
  show 1: "optimizeTitle t = js '' - South Africa''"
    using assms m by (simp add: optimizeTitle_def Let_def)
  show "optimizeTitle (optimizeTitle t) = js ''- South Africa''"
    unfolding 1 by (simp add: title_defs)
qed

lemma titleCore_Nil_iff: "titleCore t = [] \<longleftrightarrow> (\<forall>c\<in>set t. isSpace c \<or> titlePunct c)"
proof -
  have c: "(\<forall>c\<in>set (collapseGo b s). isSpace c) \<longleftrightarrow> (\<forall>c\<in>set s. isSpace c)" for b s
    by (induction s arbitrary: b) (auto simp: space32)
  have d: "(\<forall>x\<in>set (dropWhile isSpace s). isSpace x) \<longleftrightarrow> (\<forall>x\<in>set s. isSpace x)" for s
    by (induction s) auto
  have "titleCore t = [] \<longleftrightarrow> trim (collapseWs (replacePunct t)) = []"
    by (simp add: titleCore_def capitalizeWords_def capGo_Nil_iff)
  also have "\<dots> \<longleftrightarrow> (\<forall>c\<in>set (collapseWs (replacePunct t)). isSpace c)"
    by (simp add: trim_def d)
  also have "\<dots> \<longleftrightarrow> (\<forall>c\<in>set (replacePunct t). isSpace c)"
    unfolding collapseWs_def by (rule c)
  also have "\<dots> \<longleftrightarrow> (\<forall>c\<in>set t. isSpace c \<or> titlePunct c)"
    by (auto simp: replacePunct_def space32 split: if_splits)
  finally show ?thesis .
qed

text \<open>
  Claim C7, as the code has it. The output of \<open>optimizeTitle\<close> always has a locality
  marker (its own, or the suffix). Normalising it again gives the same string exactly
  when the title before the suffix is not empty, that is when the input has a character
  that is neither white space nor one of the replaced punctuation characters. For the
  other inputs the output is the bare suffix \<^verbatim>\<open> - South Africa\<close>, whose leading space the
  second normalisation trims away.
\<close>

theorem optimizeTitle_idempotent:
  "hasLocalityMarker (optimizeTitle t)
   \<and> (titleCore t = [] \<longleftrightarrow> (\<forall>c\<in>set t. isSpace c \<or> titlePunct c))
   \<and> (titleCore t \<noteq> [] \<longrightarrow> optimizeTitle (optimizeTitle t) = optimizeTitle t)
   \<and> (titleCore t = [] \<longrightarrow> optimizeTitle t = js '' - South Africa''
         \<and> optimizeTitle (optimizeTitle t) = js ''- South Africa'')"
  using optimizeTitle_marker[of t] titleCore_Nil_iff[of t] optimizeTitle_idem[of t]
    optimizeTitle_empty_core[of t]
  by blast

theorem optimizeTitle_idempotent_witness:
  "titleCore (js ''junior!! nurse@@'') \<noteq> []
   \<and> optimizeTitle (js ''junior!! nurse@@'') = js ''Junior Nurse - South Africa''
   \<and> optimizeTitle (optimizeTitle (js ''junior!! nurse@@'')) = js ''Junior Nurse - South Africa''"
proof -
  have 1: "titleCore (js ''junior!! nurse@@'') \<noteq> []" by (simp add: title_defs)
  have 2: "optimizeTitle (js ''junior!! nurse@@'') = js ''Junior Nurse - South Africa''"
    by (simp add: title_defs)
  from optimizeTitle_idempotent[of "js ''junior!! nurse@@''"] 1
  have "optimizeTitle (optimizeTitle (js ''junior!! nurse@@'')) = optimizeTitle (js ''junior!! nurse@@'')"
    by blast
  with 1 2 show ?thesis by simp
qed

text \<open>The claim as stated, at the title \<^verbatim>\<open>!\<close>: the output has a marker, and normalising
  it again changes it.\<close>

theorem optimizeTitle_not_idempotent:
  "hasLocalityMarker (optimizeTitle (js ''!''))
   \<and> optimizeTitle (optimizeTitle (js ''!'')) \<noteq> optimizeTitle (js ''!'')"
  by (simp add: title_defs)

section \<open>The order of the ranked keywords\<close>

lemma bump_keys:
  "map fst (bump t w)
   = (if w = js ''__proto__'' \<or> w \<in> set (map fst t) then map fst t else map fst t @ [w])"
proof -
  have u: "map fst (map (\<lambda>(k, v). if k = w then (k, increment v) else (k, v)) t) = map fst t"
    by (induction t) auto
  show ?thesis
  proof (cases "map_of t w")
    case None
    then have "w \<notin> set (map fst t)" by (simp add: map_of_eq_None_iff)
    with None show ?thesis by (simp add: bump_def)
  next
    case (Some v)
    then have "w \<in> set (map fst t)" by (metis map_of_eq_None_iff option.distinct(1) set_map)
    with Some show ?thesis by (auto simp: bump_def split: prod.splits)
  qed
qed

lemma foldl_bump_distinct: "distinct (map fst t) \<Longrightarrow> distinct (map fst (foldl bump t ws))"
  by (induction ws arbitrary: t) (simp_all add: bump_keys)

lemma foldl_bump_grows: "\<exists>extra. map fst (foldl bump t ws) = map fst t @ extra"
proof (induction ws arbitrary: t)
  case Nil
  then show ?case by simp
next
  case (Cons w ws)
  obtain e where e: "map fst (foldl bump (bump t w) ws) = map fst (bump t w) @ e"
    using Cons.IH by blast
  show ?case
    by (cases "w = js ''__proto__'' \<or> w \<in> set (map fst t)") (use e in \<open>auto simp: bump_keys\<close>)
qed

lemma foldl_bump_subset: "set (map fst (foldl bump t ws)) \<subseteq> set (map fst t) \<union> set ws"
proof (induction ws arbitrary: t)
  case Nil
  then show ?case by simp
next
  case (Cons w ws)
  have "set (map fst (bump t w)) \<subseteq> set (map fst t) \<union> {w}"
    by (auto simp: bump_keys split: if_splits)
  with Cons.IH[of "bump t w"] show ?case by auto
qed

lemma foldl_bump_no_proto:
  "js ''__proto__'' \<notin> set (map fst t) \<Longrightarrow> js ''__proto__'' \<notin> set (map fst (foldl bump t ws))"
proof (induction ws arbitrary: t)
  case Nil
  then show ?case by simp
next
  case (Cons w ws)
  from Cons.prems have "js ''__proto__'' \<notin> set (map fst (bump t w))"
    by (auto simp: bump_keys split: if_splits)
  then show ?case using Cons.IH by simp
qed

lemma filter_pair_distinct:
  assumes "distinct (xs @ ys)" "a \<in> set xs" "b \<notin> set xs" "b \<in> set ys"
  shows "filter (\<lambda>k. k = a \<or> k = b) (xs @ ys) = [a, b]"
proof -
  have one: "distinct zs \<Longrightarrow> c \<in> set zs \<Longrightarrow> d \<notin> set zs \<Longrightarrow> filter (\<lambda>k. k = c \<or> k = d) zs = [c]"
    for zs :: "'a list" and c d
  proof (induction zs)
    case Nil
    then show ?case by simp
  next
    case (Cons z zs)
    show ?case
    proof (cases "z = c")
      case True
      with Cons.prems have "\<forall>x\<in>set zs. \<not> (x = c \<or> x = d)" by auto
      then have "filter (\<lambda>k. k = c \<or> k = d) zs = []" by (rule filter_False)
      with True show ?thesis by simp
    next
      case False
      with Cons show ?thesis by auto
    qed
  qed
  from assms have a': "a \<notin> set ys" by auto
  have "filter (\<lambda>k. k = a \<or> k = b) xs = [a]"
    using assms by (intro one) auto
  moreover have "filter (\<lambda>k. k = b \<or> k = a) ys = [b]"
    using assms a' by (intro one) auto
  then have "filter (\<lambda>k. k = a \<or> k = b) ys = [b]"
    by (simp add: disj_commute)
  ultimately show ?thesis by simp
qed

text \<open>The keys of the frequency object stand in the order of first occurrence.\<close>

lemma countWords_first_occurrence:
  assumes ws: "ws = pre @ a # post" and b: "b \<notin> set pre" "a \<noteq> b"
    and ka: "a \<in> set (map fst (countWords ws))" and kb: "b \<in> set (map fst (countWords ws))"
  shows "filter (\<lambda>k. k = a \<or> k = b) (map fst (countWords ws)) = [a, b]"
proof -
  let ?t1 = "foldl bump [] pre"
  let ?t2 = "bump ?t1 a"
  have cw: "countWords ws = foldl bump ?t2 post"
    by (simp add: countWords_def ws)
  have np: "js ''__proto__'' \<notin> set (map fst (countWords ws))"
    unfolding countWords_def by (rule foldl_bump_no_proto) simp
  with ka have a_np: "a \<noteq> js ''__proto__''" by blast
  then have a2: "a \<in> set (map fst ?t2)" by (auto simp: bump_keys)
  have "set (map fst ?t1) \<subseteq> set pre" using foldl_bump_subset[of "[]" pre] by simp
  with b have b2: "b \<notin> set (map fst ?t2)" by (auto simp: bump_keys split: if_splits)
  obtain extra where e: "map fst (countWords ws) = map fst ?t2 @ extra"
    unfolding cw using foldl_bump_grows by blast
  have d: "distinct (map fst ?t2 @ extra)"
    unfolding e[symmetric] countWords_def by (rule foldl_bump_distinct) simp
  from kb b2 e have "b \<in> set extra" by auto
  with d a2 b2 show ?thesis unfolding e by (intro filter_pair_distinct)
qed

lemma countWords_distinct: "distinct (map fst (countWords ws))"
  unfolding countWords_def by (rule foldl_bump_distinct) simp


lemma set_objectEntries: "set (objectEntries obj) = set obj"
  by (auto simp: objectEntries_def)

lemma objectEntries_plain_keys:
  assumes "\<not> isArrayIndex a" "\<not> isArrayIndex b"
  shows "filter (\<lambda>e. fst e = a \<or> fst e = b) (objectEntries obj)
    = filter (\<lambda>e. fst e = a \<or> fst e = b) obj"
proof -
  have "filter (\<lambda>e. fst e = a \<or> fst e = b)
      (sort_key (\<lambda>e. decimalValue (fst e)) (filter (\<lambda>e. isArrayIndex (fst e)) obj)) = []"
    using assms by (intro filter_False) auto
  moreover have "filter (\<lambda>e. fst e = a \<or> fst e = b) (filter (\<lambda>e. \<not> isArrayIndex (fst e)) obj)
    = filter (\<lambda>e. fst e = a \<or> fst e = b) obj"
    using assms by (auto intro: filter_cong)
  ultimately show ?thesis by (simp add: objectEntries_def)
qed

lemma set_insertSorted: "set (insertSorted a bs) = insert a (set bs)"
  by (induction bs) auto

lemma set_insertionSort: "set (insertionSort ks) = set ks"
  unfolding insertionSort_def by (induction ks) (simp_all add: set_insertSorted)

text \<open>The sort is stable: it keeps the order among the keywords of one numeric rank.\<close>

lemma filter_insertSorted:
  "filter (\<lambda>k. rankKey k = Some n) (insertSorted a bs)
   = (if rankKey a = Some n then a # filter (\<lambda>k. rankKey k = Some n) bs
      else filter (\<lambda>k. rankKey k = Some n) bs)"
  by (induction bs) (auto simp: compareFn_def)

lemma insertionSort_stable:
  "filter (\<lambda>k. rankKey k = Some n) (insertionSort ks) = filter (\<lambda>k. rankKey k = Some n) ks"
  unfolding insertionSort_def by (induction ks) (simp_all add: filter_insertSorted)

lemma filter_pair_unique:
  assumes f: "filter (\<lambda>k. t k = a \<or> t k = b) xs = [x, y]" and tx: "t x = a" and ty: "t y = b"
    and ab: "a \<noteq> b" and k: "k \<in> set xs"
  shows "(t k = a \<longrightarrow> k = x) \<and> (t k = b \<longrightarrow> k = y)"
proof -
  have "t k = a \<or> t k = b \<Longrightarrow> k = x \<or> k = y"
  proof -
    assume "t k = a \<or> t k = b"
    with k have "k \<in> set (filter (\<lambda>k. t k = a \<or> t k = b) xs)" by simp
    with f show ?thesis by simp
  qed
  with tx ty ab show ?thesis by auto
qed

lemma filter_take_pair:
  assumes f: "filter P xs = [x, y]" and x: "x \<in> set (take m xs)" and y: "y \<in> set (take m xs)"
    and xy: "x \<noteq> y"
  shows "filter P (take m xs) = [x, y]"
proof -
  have "x \<in> set (filter P xs)" "y \<in> set (filter P xs)" by (simp_all add: f)
  then have P: "P x" "P y" by simp_all
  have "filter P (take m xs) @ filter P (drop m xs) = [x, y]"
    using f by (metis append_take_drop_id filter_append)
  moreover have "y \<in> set (filter P (take m xs))" using y P by simp
  moreover have "x \<in> set (filter P (take m xs))" using x P by simp
  ultimately show ?thesis using xy
    by (cases "filter P (take m xs)") (auto simp: append_eq_Cons_conv Cons_eq_append_conv)
qed

lemma filter_pair_split:
  assumes "filter P xs = [x, y]"
  shows "\<exists>u v w. xs = u @ x # v @ y # w"
proof -
  from filter_eq_ConsD[OF assms] obtain u r where 1: "xs = u @ x # r" and 2: "[y] = filter P r"
    by blast
  from filter_eq_ConsD[OF 2[symmetric]] obtain v w where "r = v @ y # w"
    by blast
  with 1 show ?thesis by blast
qed


lemma termOf_entry:
  "termOf ((\<lambda>(t, f). \<lparr>termOf = t, frequency = f, relevance = calculateRelevance t\<rparr>) e) = fst e"
  by (cases e) simp

lemma increment_numeric: "v \<noteq> NonNumeric \<Longrightarrow> increment v \<noteq> NonNumeric"
  by (cases v) simp_all

text \<open>A corpus without the name of an inherited function has numbers for all its counts.\<close>

lemma bump_numeric:
  assumes "\<forall>e\<in>set t. snd e \<noteq> NonNumeric" and "w \<notin> set inheritedFunctions"
  shows "\<forall>e\<in>set (bump t w). snd e \<noteq> NonNumeric"
proof (cases "map_of t w")
  case None
  with assms show ?thesis by (auto simp: bump_def)
next
  case (Some v)
  with assms show ?thesis by (auto simp: bump_def increment_numeric split: if_splits)
qed

lemma foldl_bump_numeric:
  assumes "\<forall>e\<in>set t. snd e \<noteq> NonNumeric" and "set ws \<inter> set inheritedFunctions = {}"
  shows "\<forall>e\<in>set (foldl bump t ws). snd e \<noteq> NonNumeric"
  using assms
proof (induction ws arbitrary: t)
  case Nil
  then show ?case by simp
next
  case (Cons w ws)
  from Cons.prems have "\<forall>e\<in>set (bump t w). snd e \<noteq> NonNumeric"
    by (intro bump_numeric) auto
  moreover from Cons.prems have "set ws \<inter> set inheritedFunctions = {}" by auto
  ultimately show ?case using Cons.IH by simp
qed

lemma countWords_numeric:
  "set ws \<inter> set inheritedFunctions = {} \<Longrightarrow> \<forall>e\<in>set (countWords ws). snd e \<noteq> NonNumeric"
  unfolding countWords_def by (rule foldl_bump_numeric) simp_all

lemma rankKey_entry:
  "rankKey ((\<lambda>(t, f). \<lparr>termOf = t, frequency = f, relevance = calculateRelevance t\<rparr>) e) \<noteq> None
   \<longleftrightarrow> snd e \<noteq> NonNumeric"
  by (cases e) (simp add: rankKey_def split: freq.split)

text \<open>
  Claim C6, as the code has it. Take a corpus none of whose tokens is the name of a
  function inherited from \<^verbatim>\<open>Object.prototype\<close> (on the lower-cased corpus that
  \<^verbatim>\<open>analyzeJob\<close> passes, the only such name is \<^verbatim>\<open>constructor\<close>), and two distinct terms
  \<open>a\<close> and \<open>b\<close> of the returned list that are not array indices and have the same number
  as frequency times relevance. If the first occurrence of \<open>a\<close> among the tokens comes
  before every occurrence of \<open>b\<close>, then \<open>a\<close> stands before \<open>b\<close> in the returned list,
  whatever the sort of the runtime does on inconsistent comparators. (A term that is an
  array index, such as \<^verbatim>\<open>100\<close> or \<^verbatim>\<open>2024\<close>, is listed by \<^verbatim>\<open>Object.entries\<close> before all
  other terms, wherever it occurs. With an inherited function name among the tokens a
  key is NaN and the order is left to the implementation of the sort.)
\<close>

theorem extractKeywords_tie_order:
  assumes tokens: "keywordTokens content = pre @ a # post" and b_pre: "b \<notin> set pre" and ab: "a \<noteq> b"
    and ia: "\<not> isArrayIndex a" and ib: "\<not> isArrayIndex b"
    and nc: "set (keywordTokens content) \<inter> set inheritedFunctions = {}"
    and ka: "ka \<in> set (extractKeywords sorter content)" "termOf ka = a"
    and kb: "kb \<in> set (extractKeywords sorter content)" "termOf kb = b"
    and tie: "rankKey ka = Some n" "rankKey kb = Some n"
  shows "\<exists>u v w. extractKeywords sorter content = u @ ka # v @ kb # w"
proof -
  define ws where "ws = keywordTokens content"
  define tbl where "tbl = countWords ws"
  define toKD where
    "toKD = (\<lambda>(t, f). \<lparr>termOf = t, frequency = f, relevance = calculateRelevance t\<rparr>)"
  define KD where "KD = map toKD (objectEntries tbl)"
  define S where "S = sortKeywords sorter KD"
  let ?P = "\<lambda>k. termOf k = a \<or> termOf k = b"
  have ex: "extractKeywords sorter content = take 20 S"
    by (simp add: extractKeywords_def rankedKeywords_def S_def KD_def toKD_def tbl_def ws_def)
  have t: "termOf (toKD e) = fst e" for e
    unfolding toKD_def by (rule termOf_entry)
  have mt: "map termOf (map toKD es) = map fst es" for es
    by (simp add: t)
  have num: "\<forall>e\<in>set tbl. snd e \<noteq> NonNumeric"
    using nc unfolding tbl_def ws_def by (rule countWords_numeric)
  have "rankKey (toKD e) \<noteq> None" if "e \<in> set tbl" for e
    using that num rankKey_entry[of e] unfolding toKD_def by blast
  then have "\<forall>k\<in>set KD. rankKey k \<noteq> None"
    unfolding KD_def by (auto simp: set_objectEntries simp del: not_None_eq)
  then have "list_all (\<lambda>k. rankKey k \<noteq> None) KD"
    unfolding list_all_iff .
  then have S_ins: "S = insertionSort KD"
    by (simp add: S_def sortKeywords_def)
  have setS: "set S = set KD" by (simp add: S_ins set_insertionSort)
  have inKD: "ka \<in> set KD" "kb \<in> set KD"
    using ka(1) kb(1) unfolding ex setS[symmetric] by (auto dest: in_set_takeD)
  have keys: "map termOf KD = map fst (objectEntries tbl)"
    unfolding KD_def by (rule mt)
  have "a \<in> set (map termOf KD)" "b \<in> set (map termOf KD)"
    using inKD ka(2) kb(2) by auto
  then have in_tbl: "a \<in> set (map fst tbl)" "b \<in> set (map fst tbl)"
    unfolding keys by (simp_all add: set_objectEntries)
  have f0: "filter (\<lambda>k. k = a \<or> k = b) (map fst tbl) = [a, b]"
    using tokens b_pre ab in_tbl unfolding tbl_def ws_def
    by (intro countWords_first_occurrence)
  have "map termOf (filter ?P KD) = map fst (filter (\<lambda>e. fst e = a \<or> fst e = b) (objectEntries tbl))"
    unfolding KD_def by (simp add: filter_map o_def t)
  also have "\<dots> = map fst (filter (\<lambda>e. fst e = a \<or> fst e = b) tbl)"
    using ia ib by (simp add: objectEntries_plain_keys)
  also have "\<dots> = filter (\<lambda>k. k = a \<or> k = b) (map fst tbl)"
    by (simp add: filter_map o_def)
  finally have f3: "map termOf (filter ?P KD) = [a, b]"
    using f0 by simp
  then obtain x y where xy: "filter ?P KD = [x, y]" "termOf x = a" "termOf y = b"
    by (auto simp: map_eq_Cons_conv)
  have u: "(termOf k = a \<longrightarrow> k = x) \<and> (termOf k = b \<longrightarrow> k = y)" if "k \<in> set KD" for k
    using xy ab that by (rule filter_pair_unique)
  from u[OF inKD(1)] u[OF inKD(2)] ka(2) kb(2) have eq: "x = ka" "y = kb" by auto
  have rank: "rankKey k = Some n" if "k \<in> set KD" "?P k" for k
    using u[OF that(1)] that(2) eq tie by auto
  have f4: "filter ?P S = [ka, kb]"
  proof -
    have "filter ?P S = filter ?P (filter (\<lambda>k. rankKey k = Some n) S)"
      using rank unfolding setS[symmetric] by (auto intro: filter_cong)
    also have "\<dots> = filter ?P (filter (\<lambda>k. rankKey k = Some n) KD)"
      unfolding S_ins by (simp only: insertionSort_stable)
    also have "\<dots> = filter ?P KD"
      using rank by (auto intro: filter_cong)
    finally show ?thesis using xy(1) eq by simp
  qed
  have ne: "ka \<noteq> kb" using ka(2) kb(2) ab by auto
  have "filter ?P (take 20 S) = [ka, kb]"
    using f4 ka(1) kb(1) ne unfolding ex by (rule filter_take_pair)
  then show ?thesis unfolding ex by (rule filter_pair_split)
qed

lemma rel_zzz: "calculateRelevance (js ''zzz'') = 1"
  and rel_yyy: "calculateRelevance (js ''yyy'') = 1"
  and rel_100: "calculateRelevance (js ''100'') = 1"
  by (simp_all add: calculateRelevance_def industryKeywords_def js_def)

lemma zzz_100_tokens: "keywordTokens (js ''zzz 100'') = [js ''zzz'', js ''100'']"
  by (simp add: text_defs keywordTokens_def splitWs_def stopWords_def)

lemma zzz_yyy_100_tokens: "keywordTokens (js ''zzz yyy 100'') = [js ''zzz'', js ''yyy'', js ''100'']"
  by (simp add: text_defs keywordTokens_def splitWs_def stopWords_def)

lemma index_100: "isArrayIndex (js ''100'')" "\<not> isArrayIndex (js ''zzz'')" "\<not> isArrayIndex (js ''yyy'')"
  by (simp_all add: isArrayIndex_def isDigit_def decimalValue_def js_def)

lemma zzz_100_keywords:
  "extractKeywords sorter (js ''zzz 100'')
   = [\<lparr>termOf = js ''100'', frequency = Num 1, relevance = 1\<rparr>,
      \<lparr>termOf = js ''zzz'', frequency = Num 1, relevance = 1\<rparr>]"
proof -
  have "objectEntries (countWords [js ''zzz'', js ''100'']) = [(js ''100'', Num 1), (js ''zzz'', Num 1)]"
    by (simp add: countWords_def bump_def inheritedFunctions_def objectEntries_def isArrayIndex_def isDigit_def decimalValue_def js_def)
  then show ?thesis
    unfolding extractKeywords_def rankedKeywords_def zzz_100_tokens
    by (simp add: rel_zzz rel_100 sortKeywords_def insertionSort_def compareFn_def rankKey_def)
qed

lemma zzz_yyy_100_keywords:
  "extractKeywords sorter (js ''zzz yyy 100'')
   = [\<lparr>termOf = js ''100'', frequency = Num 1, relevance = 1\<rparr>,
      \<lparr>termOf = js ''zzz'', frequency = Num 1, relevance = 1\<rparr>,
      \<lparr>termOf = js ''yyy'', frequency = Num 1, relevance = 1\<rparr>]"
proof -
  have "objectEntries (countWords [js ''zzz'', js ''yyy'', js ''100''])
    = [(js ''100'', Num 1), (js ''zzz'', Num 1), (js ''yyy'', Num 1)]"
    by (simp add: countWords_def bump_def inheritedFunctions_def objectEntries_def isArrayIndex_def isDigit_def decimalValue_def js_def)
  then show ?thesis
    unfolding extractKeywords_def rankedKeywords_def zzz_yyy_100_tokens
    by (simp add: rel_zzz rel_yyy rel_100 sortKeywords_def insertionSort_def compareFn_def rankKey_def)
qed

theorem extractKeywords_tie_order_witness:
  "keywordTokens (js ''zzz yyy 100'') = [] @ js ''zzz'' # [js ''yyy'', js ''100'']
   \<and> set (keywordTokens (js ''zzz yyy 100'')) \<inter> set inheritedFunctions = {}
   \<and> map rankKey (extractKeywords keepOrder (js ''zzz yyy 100'')) = [Some 1, Some 1, Some 1]
   \<and> (\<exists>u v w. extractKeywords keepOrder (js ''zzz yyy 100'')
        = u @ \<lparr>termOf = js ''zzz'', frequency = Num 1, relevance = 1\<rparr>
          # v @ \<lparr>termOf = js ''yyy'', frequency = Num 1, relevance = 1\<rparr> # w)"
proof -
  let ?c = "js ''zzz yyy 100''"
  let ?ka = "\<lparr>termOf = js ''zzz'', frequency = Num 1, relevance = 1\<rparr>"
  let ?kb = "\<lparr>termOf = js ''yyy'', frequency = Num 1, relevance = 1\<rparr>"
  have t: "keywordTokens ?c = [] @ js ''zzz'' # [js ''yyy'', js ''100'']"
    by (simp add: zzz_yyy_100_tokens)
  have nc: "set (keywordTokens ?c) \<inter> set inheritedFunctions = {}"
    unfolding zzz_yyy_100_tokens by (simp add: inheritedFunctions_def js_def)
  have ab: "js ''zzz'' \<noteq> js ''yyy''" by (simp add: js_def)
  have r: "map rankKey (extractKeywords keepOrder ?c) = [Some 1, Some 1, Some 1]"
    unfolding zzz_yyy_100_keywords by (simp add: rankKey_def)
  have "\<exists>u v w. extractKeywords keepOrder ?c = u @ ?ka # v @ ?kb # w"
  proof (rule extractKeywords_tie_order[where n = 1 and a = "js ''zzz''" and b = "js ''yyy''",
        OF t _ ab index_100(2) index_100(3) nc])
    show "js ''yyy'' \<notin> set []" by simp
    show "?ka \<in> set (extractKeywords keepOrder ?c)" unfolding zzz_yyy_100_keywords by simp
    show "?kb \<in> set (extractKeywords keepOrder ?c)" unfolding zzz_yyy_100_keywords by simp
  qed (simp_all add: rankKey_def)
  with t nc r show ?thesis by blast
qed

text \<open>The claim as stated, on the corpus \<^verbatim>\<open>zzz 100\<close>: both terms occur once and have
  relevance 1, \<^verbatim>\<open>zzz\<close> occurs first, and \<^verbatim>\<open>100\<close> is ranked first.\<close>

theorem numeric_term_ranks_first:
  "keywordTokens (js ''zzz 100'') = [js ''zzz'', js ''100'']
   \<and> map termOf (extractKeywords keepOrder (js ''zzz 100'')) = [js ''100'', js ''zzz'']
   \<and> map rankKey (extractKeywords keepOrder (js ''zzz 100'')) = [Some 1, Some 1]"
  unfolding zzz_100_keywords zzz_100_tokens by (simp add: rankKey_def)

section \<open>Properties of restructureContent\<close>

lemma js_nonempty: "js (c # s) \<noteq> []"
  by (simp add: js_def)

lemma headingHtml_nonempty: "headingHtml h \<noteq> []"
  by (simp add: headingHtml_def js_def)

lemma renderSections_empty_iff: "renderSections sections = [] \<longleftrightarrow> allSectionsEmpty sections"
  by (auto simp: renderSections_def allSectionsEmpty_def headingHtml_nonempty)

lemma restructureContent_verbatim:
  assumes "identifyContentSections engine (normalizeBody (description job)) = Inr sections"
    and "allSectionsEmpty sections"
  shows "restructureContent engine job = Inr (normalizeBody (description job))"
  using assms by (simp add: restructureContent_def Let_def renderSections_empty_iff)

lemma restructureContent_nonempty:
  assumes "restructureContent engine job = Inr out" and "normalizeBody (description job) \<noteq> []"
  shows "out \<noteq> []"
  using assms by (auto simp: restructureContent_def Let_def split: sum.splits if_splits)

lemma replaceAllGo_spaces:
  assumes "\<forall>c\<in>set (replaceAllGo pat rep 0 s). isSpace c" and "\<exists>c\<in>set rep. \<not> isSpace c"
  shows "\<forall>c\<in>set s. isSpace c"
  using assms
proof (induction s)
  case Nil
  then show ?case by simp
next
  case (Cons c s)
  show ?case
  proof (cases "startsWith (c # s) pat")
    case True
    with Cons.prems show ?thesis by auto
  next
    case False
    with Cons show ?thesis by auto
  qed
qed

lemma startsWith_head: "startsWith (c # s) (p # ps) \<Longrightarrow> c = p"
  by simp

lemma replaceAllGo_plain:
  assumes "\<forall>c\<in>set s. isSpace c" and "pat \<noteq> []" and "\<not> isSpace (hd pat)"
  shows "replaceAllGo pat rep 0 s = s"
  using assms
proof (induction s)
  case Nil
  then show ?case by simp
next
  case (Cons c s)
  from Cons.prems obtain p ps where p: "pat = p # ps" "\<not> isSpace p" by (cases pat) auto
  with Cons.prems have "\<not> startsWith (c # s) pat" by auto
  then have "replaceAllGo pat rep 0 (c # s) = c # replaceAllGo pat rep 0 s" by simp
  moreover have "replaceAllGo pat rep 0 s = s" using Cons.prems by (intro Cons.IH) auto
  ultimately show ?case by simp
qed

lemma collapseGo_spaces: "(\<forall>c\<in>set (collapseGo b s). isSpace c) \<longleftrightarrow> (\<forall>c\<in>set s. isSpace c)"
  by (induction s arbitrary: b) (auto simp: isSpace_def)

lemma dropWhile_spaces: "(\<forall>x\<in>set (dropWhile isSpace s). isSpace x) \<longleftrightarrow> (\<forall>x\<in>set s. isSpace x)"
  by (induction s) auto

lemma trim_Nil_iff: "trim s = [] \<longleftrightarrow> (\<forall>c\<in>set s. isSpace c)"
  by (simp add: trim_def dropWhile_spaces)

lemma normalizeBody_Nil_iff: "normalizeBody d = [] \<longleftrightarrow> (\<forall>c\<in>set d. isSpace c)"
proof
  assume "normalizeBody d = []"
  then have "\<forall>c\<in>set (replaceAllGo (js ''&#038;'') [38] 0 (replaceAllGo (js ''&#8211;'') [45] 0 d)). isSpace c"
    by (simp add: normalizeBody_def trim_Nil_iff collapseWs_def collapseGo_spaces replaceAll_def)
  then have "\<forall>c\<in>set (replaceAllGo (js ''&#8211;'') [45] 0 d). isSpace c"
    by (rule replaceAllGo_spaces) (simp add: isSpace_def)
  then show "\<forall>c\<in>set d. isSpace c"
    by (rule replaceAllGo_spaces) (simp add: isSpace_def)
next
  assume a: "\<forall>c\<in>set d. isSpace c"
  have 1: "replaceAllGo (js ''&#8211;'') [45] 0 d = d"
    using a by (rule replaceAllGo_plain) (simp_all add: js_def isSpace_def)
  have 2: "replaceAllGo (js ''&#038;'') [38] 0 d = d"
    using a by (rule replaceAllGo_plain) (simp_all add: js_def isSpace_def)
  show "normalizeBody d = []"
    using a by (simp add: normalizeBody_def replaceAll_def 1 2 trim_Nil_iff collapseWs_def collapseGo_spaces)
qed

lemma extractSection_Nil: "extractSection [] ks = []"
  by (induction ks) simp_all

lemma sectionsAfterContact_Nil: "allSectionsEmpty (sectionsAfterContact [] [])"
  by (simp add: sectionsAfterContact_def allSectionsEmpty_def extractSection_Nil Let_def trim_def)

lemma restructureContent_blank:
  assumes "\<forall>c\<in>set (description job). isSpace c"
  shows "restructureContent engine job = Inr []"
proof -
  have n: "normalizeBody (description job) = []"
    using assms by (simp add: normalizeBody_Nil_iff)
  have i: "identifyContentSections engine [] = Inr (sectionsAfterContact [] [])"
    by (simp add: identifyContentSections_def contactMatches_def)
  show ?thesis
    unfolding restructureContent_def Let_def n i
    using sectionsAfterContact_Nil by (simp add: renderSections_empty_iff)
qed

text \<open>
  Claim C8, as the code has it. When sectionizing returns and no section holds anything,
  \<open>restructureContent\<close> returns the normalised body (entities replaced, white space
  collapsed, trimmed) as it is; nothing is rendered exactly when all sections are empty.
  So whenever \<open>restructureContent\<close> (or \<open>optimizeJobSEO\<close>) returns, the content is not
  empty if the body has a character that is not white space. A body of white space only,
  though not the empty string, normalises to the empty string and gives empty content.
\<close>

theorem restructureContent_fallback:
  "(identifyContentSections engine (normalizeBody (description job)) = Inr sections
      \<and> allSectionsEmpty sections
     \<longrightarrow> restructureContent engine job = Inr (normalizeBody (description job)))
   \<and> (renderSections sections = [] \<longleftrightarrow> allSectionsEmpty sections)
   \<and> (restructureContent engine job = Inr out \<and> (\<exists>c\<in>set (description job). \<not> isSpace c)
     \<longrightarrow> out \<noteq> [])
   \<and> ((\<forall>c\<in>set (description job). isSpace c) \<longrightarrow> restructureContent engine job = Inr [])
   \<and> (optimizeJobSEO sorter engine job = Inr result \<and> (\<exists>c\<in>set (description job). \<not> isSpace c)
     \<longrightarrow> optimizedContent result \<noteq> [])"
proof -
  have ne: "normalizeBody (description job) \<noteq> []" if "\<exists>c\<in>set (description job). \<not> isSpace c"
    using that by (simp add: normalizeBody_Nil_iff)
  have o: "optimizedContent result \<noteq> []"
    if "optimizeJobSEO sorter engine job = Inr result" "\<exists>c\<in>set (description job). \<not> isSpace c"
  proof -
    from that(1) obtain out where "restructureContent engine job = Inr out" "optimizedContent result = out"
      by (auto simp: optimizeJobSEO_def Let_def split: sum.splits)
    with ne[OF that(2)] show ?thesis using restructureContent_nonempty by metis
  qed
  show ?thesis
    using restructureContent_verbatim[of engine job sections] renderSections_empty_iff[of sections]
      restructureContent_nonempty[of engine job out] ne restructureContent_blank[of job engine] o
    by blast
qed


lemmas body_defs = normalizeBody_def replaceAll_def collapseWs_def trim_def isSpace_def js_def

lemmas contact_defs = contactMatches_def contactWords_def eqIgnoreCase_def contactTailLen_def
  phoneLen_def tenDigitsLen_def emailLen_def digitsAt_def sepLen_def isMailChar_def isDigit_def
  isWordChar_def isSpace_def js_def

lemma optimizedContent_is_restructured:
  "map_sum id optimizedContent (optimizeJobSEO sorter engine job) = restructureContent engine job"
  by (simp add: optimizeJobSEO_def Let_def split: sum.split)

lemma role_body: "normalizeBody (js ''role'') = js ''role''"
  by (simp add: body_defs)

lemma role_contact: "contactMatches (js ''role'') = []"
  by (simp add: contact_defs)

lemma role_sections:
  "sectionsAfterContact [] (js ''role'')
   = \<lparr>overview = [], responsibilities = [], requirements = [], skills = [], companyInfo = [],
      applicationInfo = [], contactInfo = []\<rparr>"
proof -
  have 1: "extractSection (js ''role'') responsibilityKeywords = js ''role''"
    by (simp add: responsibilityKeywords_def eqIgnoreCase_def isWordChar_def js_def)
  have 2: "extractListItems (js ''role'') = []"
    by (simp add: extractListItems_def isBullet_def trim_def isSpace_def js_def)
  have 3: "removeFirst (js ''role'') (js ''role'') = []"
    by (simp add: js_def)
  show ?thesis
    unfolding sectionsAfterContact_def Let_def 1 2 3
    by (simp add: extractSection_Nil trim_def js_def)
qed

theorem restructureContent_fallback_witness:
  "identifyContentSections noMatchEngine (normalizeBody (description (bareJob\<lparr>description := js ''role''\<rparr>)))
     = Inr (sectionsAfterContact [] (js ''role''))
   \<and> allSectionsEmpty (sectionsAfterContact [] (js ''role''))
   \<and> (\<exists>c\<in>set (description (bareJob\<lparr>description := js ''role''\<rparr>)). \<not> isSpace c)
   \<and> restructureContent noMatchEngine (bareJob\<lparr>description := js ''role''\<rparr>) = Inr (js ''role'')"
proof -
  let ?job = "bareJob\<lparr>description := js ''role''\<rparr>"
  have d: "description ?job = js ''role''" by simp
  have i: "identifyContentSections noMatchEngine (normalizeBody (description ?job))
     = Inr (sectionsAfterContact [] (js ''role''))"
    unfolding d role_body by (simp add: identifyContentSections_def role_contact)
  have e: "allSectionsEmpty (sectionsAfterContact [] (js ''role''))"
    unfolding role_sections by (simp add: allSectionsEmpty_def)
  have n: "\<exists>c\<in>set (description ?job). \<not> isSpace c"
    unfolding d by (simp add: js_def isSpace_def)
  from restructureContent_fallback[of noMatchEngine ?job "sectionsAfterContact [] (js ''role'')"] i e
  have "restructureContent noMatchEngine ?job = Inr (normalizeBody (description ?job))"
    by blast
  then have "restructureContent noMatchEngine ?job = Inr (js ''role'')"
    unfolding d role_body .
  with i e n show ?thesis by blast
qed

text \<open>The claim as stated, at a body of one space: the body is not empty, the content is.\<close>

theorem blank_body_gives_empty_content:
  "description blankBodyJob \<noteq> []
   \<and> restructureContent noMatchEngine blankBodyJob = Inr []
   \<and> map_sum id optimizedContent (optimizeJobSEO keepOrder noMatchEngine blankBodyJob) = Inr []"
proof -
  have "restructureContent noMatchEngine blankBodyJob = Inr []"
    by (rule restructureContent_blank) (simp add: blankBodyJob_def isSpace_def)
  then show ?thesis
    by (simp add: optimizedContent_is_restructured) (simp add: blankBodyJob_def)
qed

section \<open>A body that makes the service throw\<close>

lemma contactJob_body:
  "normalizeBody (description contactJob) = js ''Contact HR (call 011 555 1234)''"
  by (simp add: contactJob_def body_defs)

lemma contactJob_matches:
  "contactMatches (js ''Contact HR (call 011 555 1234)'') = [js ''Contact HR (call 011 555 1234'']"
  by (simp add: contact_defs)

lemma contactJob_pattern: "\<not> wellBracketed (js ''Contact HR (call 011 555 1234'')"
  by (simp add: wellBracketed_def js_def)

text \<open>
  Claim C3 at the body \<^verbatim>\<open>Contact HR (call 011 555 1234)\<close>. The contact pattern matches
  from \<^verbatim>\<open>Contact\<close> to the end of the phone number, which leaves the closing parenthesis
  out; the matched text becomes the source of a regular expression with an unterminated
  group, and the constructor throws. Whatever the engine, sectionizing, restructuring and
  \<open>optimizeJobSEO\<close> end in the SyntaxError instead of returning a value.
\<close>

theorem contact_in_parentheses_throws:
  "contactMatches (normalizeBody (description contactJob)) = [js ''Contact HR (call 011 555 1234'']
   \<and> identifyContentSections engine (normalizeBody (description contactJob)) = Inl SyntaxError
   \<and> restructureContent engine contactJob = Inl SyntaxError
   \<and> optimizeJobSEO sorter engine contactJob = Inl SyntaxError"
proof -
  have i: "identifyContentSections engine (normalizeBody (description contactJob)) = Inl SyntaxError"
    unfolding contactJob_body identifyContentSections_def Let_def contactJob_matches
    by (simp add: regExpRemoveAll_def contactJob_pattern)
  then have r: "restructureContent engine contactJob = Inl SyntaxError"
    by (simp add: restructureContent_def Let_def)
  then have "optimizeJobSEO sorter engine contactJob = Inl SyntaxError"
    by (simp add: optimizeJobSEO_def Let_def)
  with i r show ?thesis by (simp add: contactJob_body contactJob_matches)
qed

theorem contact_in_parentheses_throws_witness:
  "optimizeJobSEO keepOrder noMatchEngine contactJob = Inl SyntaxError"
  using contact_in_parentheses_throws[where engine = noMatchEngine and sorter = keepOrder] by simp

end
